theory Spec2Isabelle
  imports Main "HOL-Library.Finite_Map" "HOL-Library.Sublist"
begin

section \<open>The teachable chatbot of \<open>src/components/test class.py\<close>\<close>

text \<open>
  The program is one Python script: it loads a dictionary from \<open>chat_memory.json\<close> when
  that file exists, prints two lines, and then loops: read a line, trim and lowercase it,
  leave on \<open>quit\<close>, answer from the dictionary when the phrase is a key, and otherwise ask
  for an answer and store it.

  Everything the script touches is made explicit below: the values \<open>json.load\<close> can
  return, the exceptions the script can die of, the storage file, the lines waiting on
  standard input and what has been written to standard output.
\<close>

subsection \<open>Strings\<close>

text \<open>
  A Python \<open>str\<close> is a sequence of code points. The lines the session reads and
  writes are modelled on the code points U+0000 to U+00FF, one \<^typ>\<open>char\<close> each;
  normalization on every code point follows in the next subsection. On that range \<open>str.isspace\<close> holds of exactly
  the twelve code points below, and \<open>str.lower\<close> maps every code point to one code
  point: A to Z and U+00C0 to U+00DE except the multiplication sign U+00D7 move up by 32,
  everything else stays.
\<close>

definition isspace :: "char \<Rightarrow> bool" where
  "isspace c = (of_char c \<in> {9, 10, 11, 12, 13, 28, 29, 30, 31, 32, 133, 160 :: nat})"

text \<open>\<open>s.strip()\<close>: drop the whitespace at both ends.\<close>

definition strip :: "string \<Rightarrow> string" where
  "strip s = rev (dropWhile isspace (rev (dropWhile isspace s)))"

definition lower_char :: "char \<Rightarrow> char" where
  "lower_char c =
     (let n = of_char c :: nat
      in if (65 \<le> n \<and> n \<le> 90) \<or> (192 \<le> n \<and> n \<le> 222 \<and> n \<noteq> 215)
         then char_of (n + 32) else c)"

text \<open>\<open>s.lower()\<close>.\<close>

definition lower :: "string \<Rightarrow> string" where
  "lower s = map lower_char s"

text \<open>The expression \<open>input("You:").strip().lower()\<close> applied to the line read (line 15).\<close>

definition normalize_str :: "string \<Rightarrow> string" where
  "normalize_str s = lower (strip s)"

subsection \<open>Strings over every code point\<close>

text \<open>
  The same two operations on a str of arbitrary code points, a list of natural numbers,
  as CPython implements them. On code points up to U+00FF they are the operations above
  (lemma \<open>normalize_str_refines\<close>).
\<close>

text \<open>
  \<open>str.strip()\<close> removes the code points for which the interpreter's
  \<open>_PyUnicode_IsWhitespace\<close> holds: twenty-nine in all.
\<close>

definition is_whitespace :: "nat \<Rightarrow> bool" where
  "is_whitespace c =
     (c \<in> {0x9..0xD} \<union> {0x1C..0x20} \<union> {0x85, 0xA0, 0x1680} \<union> {0x2000..0x200A} \<union>
          {0x2028, 0x2029, 0x202F, 0x205F, 0x3000})"

definition py_strip :: "nat list \<Rightarrow> nat list" where
  "py_strip s = rev (dropWhile is_whitespace (rev (dropWhile is_whitespace s)))"

text \<open>
  The simple lowercase mapping of the Unicode Character Database, version 14.0.0, as
  CPython 3.11 carries it: 1433 code points have a lowercase different from themselves.
  They are written as 181 arithmetic progressions \<open>(first, last, step, image of first)\<close>:
  the code point \<open>first + k * step\<close>, up to \<open>last\<close>, has the lowercase
  \<open>image of first + k * step\<close>. The progressions are in ascending order and grouped into
  blocks, each block tagged in \<open>lower_table\<close> with the last code point it covers.
\<close>

type_synonym case_range = "nat \<times> nat \<times> nat \<times> nat"

definition lower_block_0 :: "case_range list" where
  "lower_block_0 = [
     (65, 90, 1, 97), (192, 214, 1, 224), (216, 222, 1, 248)]"

definition lower_block_1 :: "case_range list" where
  "lower_block_1 = [
     (256, 302, 2, 257), (306, 310, 2, 307), (313, 327, 2, 314), (330, 374, 2, 331),
     (376, 376, 1, 255), (377, 381, 2, 378), (385, 385, 1, 595), (386, 388, 2, 387),
     (390, 390, 1, 596), (391, 391, 1, 392), (393, 394, 1, 598), (395, 395, 1, 396),
     (398, 398, 1, 477)]"

definition lower_block_2 :: "case_range list" where
  "lower_block_2 = [
     (399, 399, 1, 601), (400, 400, 1, 603), (401, 401, 1, 402), (403, 403, 1, 608),
     (404, 404, 1, 611), (406, 406, 1, 617), (407, 407, 1, 616), (408, 408, 1, 409),
     (412, 412, 1, 623), (413, 413, 1, 626), (415, 415, 1, 629), (416, 420, 2, 417),
     (422, 422, 1, 640)]"

definition lower_block_3 :: "case_range list" where
  "lower_block_3 = [
     (423, 423, 1, 424), (425, 425, 1, 643), (428, 428, 1, 429), (430, 430, 1, 648),
     (431, 431, 1, 432), (433, 434, 1, 650), (435, 437, 2, 436), (439, 439, 1, 658),
     (440, 440, 1, 441), (444, 444, 1, 445), (452, 452, 1, 454), (453, 453, 1, 454),
     (455, 455, 1, 457)]"

definition lower_block_4 :: "case_range list" where
  "lower_block_4 = [
     (456, 456, 1, 457), (458, 458, 1, 460), (459, 475, 2, 460), (478, 494, 2, 479),
     (497, 497, 1, 499), (498, 500, 2, 499), (502, 502, 1, 405), (503, 503, 1, 447),
     (504, 542, 2, 505), (544, 544, 1, 414), (546, 562, 2, 547), (570, 570, 1, 11365),
     (571, 571, 1, 572)]"

definition lower_block_5 :: "case_range list" where
  "lower_block_5 = [
     (573, 573, 1, 410), (574, 574, 1, 11366), (577, 577, 1, 578), (579, 579, 1, 384),
     (580, 580, 1, 649), (581, 581, 1, 652), (582, 590, 2, 583), (880, 882, 2, 881),
     (886, 886, 1, 887), (895, 895, 1, 1011), (902, 902, 1, 940), (904, 906, 1, 941),
     (908, 908, 1, 972)]"

definition lower_block_6 :: "case_range list" where
  "lower_block_6 = [
     (910, 911, 1, 973), (913, 929, 1, 945), (931, 939, 1, 963), (975, 975, 1, 983),
     (984, 1006, 2, 985), (1012, 1012, 1, 952), (1015, 1015, 1, 1016), (1017, 1017, 1, 1010),
     (1018, 1018, 1, 1019), (1021, 1023, 1, 891), (1024, 1039, 1, 1104),
     (1040, 1071, 1, 1072), (1120, 1152, 2, 1121)]"

definition lower_block_7 :: "case_range list" where
  "lower_block_7 = [
     (1162, 1214, 2, 1163), (1216, 1216, 1, 1231), (1217, 1229, 2, 1218),
     (1232, 1326, 2, 1233), (1329, 1366, 1, 1377), (4256, 4293, 1, 11520),
     (4295, 4295, 1, 11559), (4301, 4301, 1, 11565), (5024, 5103, 1, 43888),
     (5104, 5109, 1, 5112), (7312, 7354, 1, 4304), (7357, 7359, 1, 4349),
     (7680, 7828, 2, 7681)]"

definition lower_block_8 :: "case_range list" where
  "lower_block_8 = [
     (7838, 7838, 1, 223), (7840, 7934, 2, 7841), (7944, 7951, 1, 7936),
     (7960, 7965, 1, 7952), (7976, 7983, 1, 7968), (7992, 7999, 1, 7984),
     (8008, 8013, 1, 8000), (8025, 8031, 2, 8017), (8040, 8047, 1, 8032),
     (8072, 8079, 1, 8064), (8088, 8095, 1, 8080), (8104, 8111, 1, 8096),
     (8120, 8121, 1, 8112)]"

definition lower_block_9 :: "case_range list" where
  "lower_block_9 = [
     (8122, 8123, 1, 8048), (8124, 8124, 1, 8115), (8136, 8139, 1, 8050),
     (8140, 8140, 1, 8131), (8152, 8153, 1, 8144), (8154, 8155, 1, 8054),
     (8168, 8169, 1, 8160), (8170, 8171, 1, 8058), (8172, 8172, 1, 8165),
     (8184, 8185, 1, 8056), (8186, 8187, 1, 8060), (8188, 8188, 1, 8179),
     (8486, 8486, 1, 969)]"

definition lower_block_10 :: "case_range list" where
  "lower_block_10 = [
     (8490, 8490, 1, 107), (8491, 8491, 1, 229), (8498, 8498, 1, 8526),
     (8544, 8559, 1, 8560), (8579, 8579, 1, 8580), (9398, 9423, 1, 9424),
     (11264, 11311, 1, 11312), (11360, 11360, 1, 11361), (11362, 11362, 1, 619),
     (11363, 11363, 1, 7549), (11364, 11364, 1, 637), (11367, 11371, 2, 11368),
     (11373, 11373, 1, 593)]"

definition lower_block_11 :: "case_range list" where
  "lower_block_11 = [
     (11374, 11374, 1, 625), (11375, 11375, 1, 592), (11376, 11376, 1, 594),
     (11378, 11378, 1, 11379), (11381, 11381, 1, 11382), (11390, 11391, 1, 575),
     (11392, 11490, 2, 11393), (11499, 11501, 2, 11500), (11506, 11506, 1, 11507),
     (42560, 42604, 2, 42561), (42624, 42650, 2, 42625), (42786, 42798, 2, 42787),
     (42802, 42862, 2, 42803)]"

definition lower_block_12 :: "case_range list" where
  "lower_block_12 = [
     (42873, 42875, 2, 42874), (42877, 42877, 1, 7545), (42878, 42886, 2, 42879),
     (42891, 42891, 1, 42892), (42893, 42893, 1, 613), (42896, 42898, 2, 42897),
     (42902, 42920, 2, 42903), (42922, 42922, 1, 614), (42923, 42923, 1, 604),
     (42924, 42924, 1, 609), (42925, 42925, 1, 620), (42926, 42926, 1, 618),
     (42928, 42928, 1, 670)]"

definition lower_block_13 :: "case_range list" where
  "lower_block_13 = [
     (42929, 42929, 1, 647), (42930, 42930, 1, 669), (42931, 42931, 1, 43859),
     (42932, 42946, 2, 42933), (42948, 42948, 1, 42900), (42949, 42949, 1, 642),
     (42950, 42950, 1, 7566), (42951, 42953, 2, 42952), (42960, 42960, 1, 42961),
     (42966, 42968, 2, 42967), (42997, 42997, 1, 42998), (65313, 65338, 1, 65345),
     (66560, 66599, 1, 66600)]"

definition lower_block_14 :: "case_range list" where
  "lower_block_14 = [
     (66736, 66771, 1, 66776), (66928, 66938, 1, 66967), (66940, 66954, 1, 66979),
     (66956, 66962, 1, 66995), (66964, 66965, 1, 67003), (68736, 68786, 1, 68800),
     (71840, 71871, 1, 71872), (93760, 93791, 1, 93792), (125184, 125217, 1, 125218)]"

definition lower_table :: "(nat \<times> case_range list) list" where
  "lower_table = [
    (255, lower_block_0), (398, lower_block_1), (422, lower_block_2), (455, lower_block_3),
    (571, lower_block_4), (908, lower_block_5), (1152, lower_block_6), (7828, lower_block_7),
    (8121, lower_block_8), (8486, lower_block_9), (11373, lower_block_10),
    (42862, lower_block_11), (42928, lower_block_12), (66599, lower_block_13),
    (125217, lower_block_14)]"

text \<open>The lowercase of a code point in the table, if it has one.\<close>

fun find_range :: "case_range list \<Rightarrow> nat \<Rightarrow> nat option" where
  "find_range [] c = None"
| "find_range ((s, e, st, d) # rs) c =
     (if s \<le> c \<and> c \<le> e \<and> (c - s) mod st = 0 then Some (d + (c - s)) else find_range rs c)"

fun find_block :: "(nat \<times> case_range list) list \<Rightarrow> nat \<Rightarrow> nat option" where
  "find_block [] c = None"
| "find_block ((hi, rs) # bs) c = (if c \<le> hi then find_range rs c else find_block bs c)"

text \<open>
  \<open>_PyUnicode_ToLowerFull\<close>: U+0130 is the one code point whose lowercase is two code
  points; every other code point has its simple lowercase, or is its own.
\<close>

definition to_lower_full :: "nat \<Rightarrow> nat list" where
  "to_lower_full c =
     (if c = 0x130 then [0x69, 0x307]
      else case find_block lower_table c of None \<Rightarrow> [c] | Some d \<Rightarrow> [d])"

text \<open>
  \<open>handle_capital_sigma\<close>: the capital sigma U+03A3 becomes the final sigma U+03C2 when
  the nearest code point before it that is not case-ignorable is cased, and the nearest one
  after it that is not case-ignorable is not cased or does not exist; otherwise it becomes
  U+03C3. \<open>before\<close> is the part of the string before the sigma, nearest code point
  first. The properties Cased and Case_Ignorable of the database decide nothing else in
  \<open>str.lower\<close>; they are parameters here, so that what is proved holds for every
  version of them.
\<close>

definition final_sigma :: "(nat \<Rightarrow> bool) \<Rightarrow> (nat \<Rightarrow> bool) \<Rightarrow> nat list \<Rightarrow> nat list \<Rightarrow> bool" where
  "final_sigma cased ignorable before after =
     (case dropWhile ignorable before of
        [] \<Rightarrow> False
      | p # _ \<Rightarrow>
          cased p \<and>
          (case dropWhile ignorable after of [] \<Rightarrow> True | n # _ \<Rightarrow> \<not> cased n))"

definition lower_ucs4 ::
  "(nat \<Rightarrow> bool) \<Rightarrow> (nat \<Rightarrow> bool) \<Rightarrow> nat list \<Rightarrow> nat \<Rightarrow> nat list \<Rightarrow> nat list" where
  "lower_ucs4 cased ignorable before c after =
     (if c = 0x3A3 then [if final_sigma cased ignorable before after then 0x3C2 else 0x3C3]
      else to_lower_full c)"

text \<open>\<open>do_lower\<close>: every code point in turn, in the context of the whole string.\<close>

fun do_lower ::
  "(nat \<Rightarrow> bool) \<Rightarrow> (nat \<Rightarrow> bool) \<Rightarrow> nat list \<Rightarrow> nat list \<Rightarrow> nat list" where
  "do_lower cased ignorable before [] = []"
| "do_lower cased ignorable before (c # after) =
     lower_ucs4 cased ignorable before c after @ do_lower cased ignorable (c # before) after"

definition py_lower :: "(nat \<Rightarrow> bool) \<Rightarrow> (nat \<Rightarrow> bool) \<Rightarrow> nat list \<Rightarrow> nat list" where
  "py_lower cased ignorable s = do_lower cased ignorable [] s"

text \<open>\<open>s.strip().lower()\<close> on a str of any code points.\<close>

definition py_normalize :: "(nat \<Rightarrow> bool) \<Rightarrow> (nat \<Rightarrow> bool) \<Rightarrow> nat list \<Rightarrow> nat list" where
  "py_normalize cased ignorable s = py_lower cased ignorable (py_strip s)"

subsection \<open>Values, exceptions and the world\<close>

text \<open>
  \<open>json.load\<close> returns \<open>None\<close>, a bool, an int, a float, a str, a list or a dict with
  str keys. The script never looks inside a float, so floats are left opaque.
\<close>

typedecl pyfloat

datatype pyval =
    PNone
  | PBool bool
  | PInt int
  | PFloat pyfloat
  | PStr string
  | PList "pyval list"
  | PDict "(string, pyval) fmap"

text \<open>
  The exceptions lines 6 and 7 can raise on a path that exists: \<open>open\<close> raises an
  \<open>OSError\<close> (a directory, no permission); reading the file inside \<open>json.load\<close>
  raises \<open>UnicodeDecodeError\<close> on bytes that are not UTF-8; the decoder raises
  \<open>json.JSONDecodeError\<close> on text that is not JSON, \<open>RecursionError\<close> on nesting
  that is too deep, and a plain \<open>ValueError\<close> on an integer literal beyond the
  interpreter's digit limit.
\<close>

datatype load_error =
  OSError | UnicodeDecodeError | JSONDecodeError | RecursionError | ValueError

datatype error = LoadError load_error | TypeError | KeyError | EOFError

text \<open>
  \<open>open\<close> and \<open>json.load\<close> are the interpreter's, not the script's. An existing
  storage file is given by what lines 6 and 7 do with it: they raise one of the
  exceptions above, or \<open>json.load\<close> returns a value. Which bytes lead to which of
  these is the library's business and is not modelled; nothing below depends on it.
  The \<open>disk\<close> of the world is \<open>None\<close> when \<open>os.path.exists(BRAIN)\<close> is false.
\<close>

datatype storage_file = Fails load_error | Document pyval

text \<open>What reaches standard output: the prompt of an \<open>input\<close> call, or one \<open>print\<close>
  call with its arguments.\<close>

datatype event = Prompt string | Print "pyval list"

record world =
  disk :: "storage_file option"
  stdin :: "string list"
  stdout :: "event list"

text \<open>\<open>print(*args)\<close>.\<close>

definition print :: "pyval list \<Rightarrow> world \<Rightarrow> world" where
  "print args w = w\<lparr>stdout := stdout w @ [Print args]\<rparr>"

text \<open>
  \<open>input(prompt)\<close>: the prompt is written, then one line is taken from standard
  input; when the stream is at its end, \<open>EOFError\<close> is raised.
\<close>

definition input :: "string \<Rightarrow> world \<Rightarrow> (error + string) \<times> world" where
  "input prompt w =
     (let w' = w\<lparr>stdout := stdout w @ [Prompt prompt]\<rparr>
      in case stdin w of
           [] \<Rightarrow> (Inl EOFError, w')
         | l # ls \<Rightarrow> (Inr l, w'\<lparr>stdin := ls\<rparr>))"

subsection \<open>The operations the script applies to \<open>brain\<close>\<close>

text \<open>\<open>len(brain)\<close>.\<close>

fun py_len :: "pyval \<Rightarrow> error + int" where
  "py_len (PStr s) = Inr (int (length s))"
| "py_len (PList xs) = Inr (int (length xs))"
| "py_len (PDict m) = Inr (int (fcard (fmdom m)))"
| "py_len _ = Inl TypeError"

text \<open>
  \<open>user in brain\<close> for a str \<open>user\<close>: key membership in a dict, element membership in a
  list (only a str element can equal a str), substring test in a str.
\<close>

fun py_in :: "string \<Rightarrow> pyval \<Rightarrow> error + bool" where
  "py_in k (PDict m) = Inr (k |\<in>| fmdom m)"
| "py_in k (PList xs) = Inr (PStr k \<in> set xs)"
| "py_in k (PStr s) = Inr (sublist k s)"
| "py_in k _ = Inl TypeError"

text \<open>\<open>brain[user]\<close> for a str \<open>user\<close>.\<close>

fun py_getitem :: "pyval \<Rightarrow> string \<Rightarrow> error + pyval" where
  "py_getitem (PDict m) k = (case fmlookup m k of None \<Rightarrow> Inl KeyError | Some v \<Rightarrow> Inr v)"
| "py_getitem _ k = Inl TypeError"

text \<open>\<open>brain[user] = teach\<close> for a str \<open>user\<close>.\<close>

fun py_setitem :: "pyval \<Rightarrow> string \<Rightarrow> pyval \<Rightarrow> error + pyval" where
  "py_setitem (PDict m) k v = Inr (PDict (fmupd k v m))"
| "py_setitem _ k v = Inl TypeError"

subsection \<open>The script\<close>

text \<open>Lines 5 to 9: the value bound to \<open>brain\<close> at startup.\<close>

definition load :: "world \<Rightarrow> error + pyval" where
  "load w =
     (case disk w of
        None \<Rightarrow> Inr (PDict fmempty)
      | Some (Fails e) \<Rightarrow> Inl (LoadError e)
      | Some (Document v) \<Rightarrow> Inr v)"

text \<open>Lines 15 to 27: one pass through the body of \<open>while True\<close>.\<close>

datatype ctl = Break | Continue | Raise error

definition body :: "pyval \<Rightarrow> world \<Rightarrow> ctl \<times> pyval \<times> world" where
  "body brain w =
     (case input ''You:'' w of
        (Inl e, w1) \<Rightarrow> (Raise e, brain, w1)
      | (Inr line, w1) \<Rightarrow>
          let user = lower (strip line) in
          if lower user = ''quit'' then (Break, brain, w1)
          else
            case py_in user brain of
              Inl e \<Rightarrow> (Raise e, brain, w1)
            | Inr True \<Rightarrow>
                (case py_getitem brain user of
                   Inl e \<Rightarrow> (Raise e, brain, w1)
                 | Inr v \<Rightarrow> (Continue, brain, print [PStr ''Bot:'', v] w1))
            | Inr False \<Rightarrow>
                let w2 = print [PStr ''Bot: I don't know what to say''] w1 in
                case input ''Can you teach me?'' w2 of
                  (Inl e, w3) \<Rightarrow> (Raise e, brain, w3)
                | (Inr teach, w3) \<Rightarrow>
                    (case py_setitem brain user (PStr teach) of
                       Inl e \<Rightarrow> (Raise e, brain, w3)
                     | Inr brain' \<Rightarrow>
                         (Continue, brain',
                          print [PStr ''Bot: Got it! I'll remember that''] w3)))"

text \<open>How the process ends: it runs off the end of the script, or dies of an exception.\<close>

datatype outcome = Finished | Raised error

text \<open>
  The interpreter's exit status: 0 when the script ends, 1 after an uncaught exception.
\<close>

fun exit_code :: "outcome \<Rightarrow> nat" where
  "exit_code Finished = 0"
| "exit_code (Raised e) = 1"

lemma input_stdin:
  "input p w = (Inr l, w') \<Longrightarrow> stdin w = l # stdin w'"
  by (auto simp: input_def Let_def split: list.splits)

lemma print_stdin [simp]: "stdin (print args w) = stdin w"
  by (simp add: print_def)

lemma body_Continue_stdin:
  assumes "body brain w = (Continue, brain', w')"
  shows "length (stdin w') < length (stdin w)"
proof -
  obtain r w1 where i1: "input ''You:'' w = (r, w1)"
    by (cases "input ''You:'' w")
  from assms i1 obtain line where r: "r = Inr line"
    by (cases r) (auto simp: body_def)
  from i1 r have s1: "stdin w = line # stdin w1"
    by (simp add: input_stdin)
  have "length (stdin w') \<le> length (stdin w1)"
    using assms i1 r
    by (auto simp: body_def Let_def split: if_splits sum.splits bool.splits prod.splits
        dest!: input_stdin)
  with s1 show ?thesis by simp
qed

text \<open>Lines 14 to 27: the loop, until \<open>break\<close> or an exception.\<close>

function loop :: "pyval \<Rightarrow> world \<Rightarrow> outcome \<times> pyval \<times> world" where
  "loop brain w =
     (case body brain w of
        (Break, brain', w') \<Rightarrow> (Finished, brain', w')
      | (Raise e, brain', w') \<Rightarrow> (Raised e, brain', w')
      | (Continue, brain', w') \<Rightarrow> loop brain' w')"
  by pat_completeness auto
termination
  by (relation "measure (\<lambda>(brain, w). length (stdin w))")
    (auto dest: body_Continue_stdin [OF sym])

text \<open>
  The whole script. The second component is \<open>brain\<close> when the process ends, \<open>None\<close>
  when the name was never bound.
\<close>

definition main :: "world \<Rightarrow> outcome \<times> pyval option \<times> world" where
  "main w =
     (case load w of
        Inl e \<Rightarrow> (Raised e, None, w)
      | Inr brain \<Rightarrow>
          (case py_len brain of
             Inl e \<Rightarrow> (Raised e, Some brain, w)
           | Inr n \<Rightarrow>
               let w1 = print [PStr ''Memories Loaded'', PInt n] w;
                   w2 = print [PStr ''hey, teach me how to talk.  type quit to exit''] w1
               in case loop brain w2 of (oc, brain', w') \<Rightarrow> (oc, Some brain', w')))"

text \<open>
  The invariant of the data model, in the words of the specification: every key of the
  table is equal to its own trimmed and lowercased form.
\<close>

definition keys_normalized :: "(string, pyval) fmap \<Rightarrow> bool" where
  "keys_normalized m = fBall (fmdom m) (\<lambda>k. normalize_str k = k)"

section \<open>Normalization\<close>

subsection \<open>Over the code points up to U+00FF\<close>

lemma of_char_lt: "of_char (c::char) < (256::nat)"
  by (metis of_char_mod_256 mod_less_divisor zero_less_numeral)

lemma lower_char_idem: "lower_char (lower_char c) = lower_char c"
  using of_char_lt [of c]
  by (auto simp: lower_char_def Let_def)

lemma isspace_lower_char: "isspace (lower_char c) = isspace c"
  using of_char_lt [of c]
  by (auto simp: lower_char_def isspace_def Let_def)

lemma lower_idem: "lower (lower s) = lower s"
  by (simp add: lower_def lower_char_idem)

lemma lower_dropWhile: "lower (dropWhile isspace s) = dropWhile isspace (lower s)"
  by (simp add: lower_def dropWhile_map o_def isspace_lower_char)

lemma lower_rev: "lower (rev s) = rev (lower s)"
  by (simp add: lower_def rev_map)

lemma lower_strip: "lower (strip s) = strip (lower s)"
  by (simp add: strip_def lower_rev [symmetric] lower_dropWhile [symmetric])

lemma strip_prefix: "\<exists>v. dropWhile isspace s = strip s @ v"
proof -
  let ?t = "dropWhile isspace s"
  have "rev (takeWhile isspace (rev ?t) @ dropWhile isspace (rev ?t))
        = rev (dropWhile isspace (rev ?t)) @ rev (takeWhile isspace (rev ?t))"
    by (rule rev_append)
  moreover have "rev (takeWhile isspace (rev ?t) @ dropWhile isspace (rev ?t)) = ?t"
    by (simp only: takeWhile_dropWhile_id rev_rev_ident)
  ultimately have "?t = strip s @ rev (takeWhile isspace (rev ?t))"
    by (simp only: strip_def)
  then show ?thesis ..
qed

lemma strip_hd: "strip s \<noteq> [] \<Longrightarrow> \<not> isspace (hd (strip s))"
proof -
  assume ne: "strip s \<noteq> []"
  obtain v where v: "dropWhile isspace s = strip s @ v" using strip_prefix by blast
  with ne have "dropWhile isspace s \<noteq> []" by simp
  then have "\<not> isspace (hd (dropWhile isspace s))" by (rule hd_dropWhile)
  with v ne show ?thesis by simp
qed

lemma dropWhile_strip: "dropWhile isspace (strip s) = strip s"
  using strip_hd [of s] by (cases "strip s") auto

lemma strip_idem: "strip (strip s) = strip s"
proof -
  have "strip (strip s) = rev (dropWhile isspace (rev (strip s)))"
    by (simp add: strip_def [of "strip s"] dropWhile_strip)
  also have "\<dots> = rev (dropWhile isspace (dropWhile isspace (rev (dropWhile isspace s))))"
    by (simp add: strip_def)
  also have "\<dots> = strip s"
    by (simp add: strip_def)
  finally show ?thesis .
qed

lemma normalize_str_idem: "normalize_str (normalize_str s) = normalize_str s"
  by (simp add: normalize_str_def lower_strip strip_idem lower_idem)

subsection \<open>Over every code point\<close>

text \<open>
  No lowercase image has a lowercase of its own, is whitespace, or is the capital sigma or
  U+0130. This is checked on the table, one progression at a time: \<open>blocks_apart\<close>
  decides whether a progression of images misses every progression of the table.
\<close>

fun ranges_apart :: "case_range list \<Rightarrow> nat \<Rightarrow> nat \<Rightarrow> nat \<Rightarrow> bool" where
  "ranges_apart [] lo hi st = True"
| "ranges_apart ((s, e, st', d) # rs) lo hi st =
     ((hi < s \<or> e < lo \<or> (st = 2 \<and> st' = 2 \<and> (lo + s) mod 2 = 1) \<or>
       (lo = hi \<and> \<not> (s \<le> lo \<and> lo \<le> e \<and> (lo - s) mod st' = 0))) \<and>
      ranges_apart rs lo hi st)"

fun blocks_apart :: "(nat \<times> case_range list) list \<Rightarrow> nat \<Rightarrow> nat \<Rightarrow> nat \<Rightarrow> bool" where
  "blocks_apart [] lo hi st = True"
| "blocks_apart ((bhi, rs) # bs) lo hi st =
     (if bhi < lo then blocks_apart bs lo hi st
      else ranges_apart rs lo hi st \<and> (hi \<le> bhi \<or> blocks_apart bs lo hi st))"

definition ws_gap :: "nat \<Rightarrow> nat \<Rightarrow> bool" where
  "ws_gap lo hi =
     ((hi < 0x9 \<or> 0xD < lo) \<and> (hi < 0x1C \<or> 0x20 < lo) \<and> (hi < 0x85 \<or> 0x85 < lo) \<and>
      (hi < 0xA0 \<or> 0xA0 < lo) \<and> (hi < 0x1680 \<or> 0x1680 < lo) \<and>
      (hi < 0x2000 \<or> 0x200A < lo) \<and> (hi < 0x2028 \<or> 0x2029 < lo) \<and>
      (hi < 0x202F \<or> 0x202F < lo) \<and> (hi < 0x205F \<or> 0x205F < lo) \<and>
      (hi < 0x3000 \<or> 0x3000 < lo))"

definition image_ok :: "case_range \<Rightarrow> bool" where
  "image_ok r =
     (case r of (s, e, st, d) \<Rightarrow>
        blocks_apart lower_table d (d + (e - s)) st \<and> ws_gap d (d + (e - s)) \<and>
        (0x3A3 < d \<or> d + (e - s) < 0x3A3) \<and> (0x130 < d \<or> d + (e - s) < 0x130))"

lemmas lower_block_defs = lower_block_0_def lower_block_1_def lower_block_2_def lower_block_3_def lower_block_4_def lower_block_5_def lower_block_6_def lower_block_7_def lower_block_8_def lower_block_9_def lower_block_10_def lower_block_11_def lower_block_12_def lower_block_13_def lower_block_14_def

lemma lower_block_0_ok: "list_all image_ok lower_block_0"
  unfolding lower_block_0_def
  apply (simp add: image_ok_def ws_gap_def lower_table_def)
  apply (simp add: lower_block_defs)?
  done

lemma lower_block_1_ok: "list_all image_ok lower_block_1"
  unfolding lower_block_1_def
  apply (simp add: image_ok_def ws_gap_def lower_table_def)
  apply (simp add: lower_block_defs)?
  done

lemma lower_block_2_ok: "list_all image_ok lower_block_2"
  unfolding lower_block_2_def
  apply (simp add: image_ok_def ws_gap_def lower_table_def)
  apply (simp add: lower_block_defs)?
  done

lemma lower_block_3_ok: "list_all image_ok lower_block_3"
  unfolding lower_block_3_def
  apply (simp add: image_ok_def ws_gap_def lower_table_def)
  apply (simp add: lower_block_defs)?
  done

lemma lower_block_4_ok: "list_all image_ok lower_block_4"
  unfolding lower_block_4_def
  apply (simp add: image_ok_def ws_gap_def lower_table_def)
  apply (simp add: lower_block_defs)?
  done

lemma lower_block_5_ok: "list_all image_ok lower_block_5"
  unfolding lower_block_5_def
  apply (simp add: image_ok_def ws_gap_def lower_table_def)
  apply (simp add: lower_block_defs)?
  done

lemma lower_block_6_ok: "list_all image_ok lower_block_6"
  unfolding lower_block_6_def
  apply (simp add: image_ok_def ws_gap_def lower_table_def)
  apply (simp add: lower_block_defs)?
  done

lemma lower_block_7_ok: "list_all image_ok lower_block_7"
  unfolding lower_block_7_def
  apply (simp add: image_ok_def ws_gap_def lower_table_def)
  apply (simp add: lower_block_defs)?
  done

lemma lower_block_8_ok: "list_all image_ok lower_block_8"
  unfolding lower_block_8_def
  apply (simp add: image_ok_def ws_gap_def lower_table_def)
  apply (simp add: lower_block_defs)?
  done

lemma lower_block_9_ok: "list_all image_ok lower_block_9"
  unfolding lower_block_9_def
  apply (simp add: image_ok_def ws_gap_def lower_table_def)
  apply (simp add: lower_block_defs)?
  done

lemma lower_block_10_ok: "list_all image_ok lower_block_10"
  unfolding lower_block_10_def
  apply (simp add: image_ok_def ws_gap_def lower_table_def)
  apply (simp add: lower_block_defs)?
  done

lemma lower_block_11_ok: "list_all image_ok lower_block_11"
  unfolding lower_block_11_def
  apply (simp add: image_ok_def ws_gap_def lower_table_def)
  apply (simp add: lower_block_defs)?
  done

lemma lower_block_12_ok: "list_all image_ok lower_block_12"
  unfolding lower_block_12_def
  apply (simp add: image_ok_def ws_gap_def lower_table_def)
  apply (simp add: lower_block_defs)?
  done

lemma lower_block_13_ok: "list_all image_ok lower_block_13"
  unfolding lower_block_13_def
  apply (simp add: image_ok_def ws_gap_def lower_table_def)
  apply (simp add: lower_block_defs)?
  done

lemma lower_block_14_ok: "list_all image_ok lower_block_14"
  unfolding lower_block_14_def
  apply (simp add: image_ok_def ws_gap_def lower_table_def)
  apply (simp add: lower_block_defs)?
  done


lemma table_images_ok: "list_all (\<lambda>(hi, rs). list_all image_ok rs) lower_table"
  by (simp add: lower_table_def lower_block_0_ok lower_block_1_ok lower_block_2_ok lower_block_3_ok lower_block_4_ok lower_block_5_ok lower_block_6_ok lower_block_7_ok lower_block_8_ok lower_block_9_ok lower_block_10_ok lower_block_11_ok lower_block_12_ok lower_block_13_ok lower_block_14_ok)

lemma ranges_apart_sound:
  assumes "ranges_apart rs lo hi st" and "lo \<le> x" and "x \<le> hi" and "(x - lo) mod st = 0"
  shows "find_range rs x = None"
  using assms
proof (induction rs)
  case Nil
  show ?case by simp
next
  case (Cons r rs)
  obtain s e st' d where r: "r = (s, e, st', d)" by (cases r)
  from Cons.prems(1) r
  have here: "hi < s \<or> e < lo \<or> (st = 2 \<and> st' = 2 \<and> (lo + s) mod 2 = 1) \<or>
       (lo = hi \<and> \<not> (s \<le> lo \<and> lo \<le> e \<and> (lo - s) mod st' = 0))"
    and rest: "ranges_apart rs lo hi st" by simp_all
  have miss: "\<not> (s \<le> x \<and> x \<le> e \<and> (x - s) mod st' = 0)"
    using here
  proof (elim disjE)
    assume "hi < s"
    with Cons.prems(3) show ?thesis by simp
  next
    assume "e < lo"
    with Cons.prems(2) show ?thesis by simp
  next
    assume p: "st = 2 \<and> st' = 2 \<and> (lo + s) mod 2 = 1"
    with Cons.prems(4) have "(x - lo) mod 2 = 0" by simp
    with p Cons.prems(2) show ?thesis by presburger
  next
    assume a: "lo = hi \<and> \<not> (s \<le> lo \<and> lo \<le> e \<and> (lo - s) mod st' = 0)"
    then have n: "\<not> (s \<le> lo \<and> lo \<le> e \<and> (lo - s) mod st' = 0)" by (rule conjunct2)
    from a Cons.prems(2,3) have "x = lo" by simp
    with n show ?thesis by simp
  qed
  from rest Cons.prems(2,3,4) have "find_range rs x = None" by (rule Cons.IH)
  with miss r show ?case by simp
qed

lemma blocks_apart_sound:
  assumes "blocks_apart bs lo hi st" and "lo \<le> x" and "x \<le> hi" and "(x - lo) mod st = 0"
  shows "find_block bs x = None"
  using assms
proof (induction bs)
  case Nil
  show ?case by simp
next
  case (Cons b bs)
  obtain bhi rs where b: "b = (bhi, rs)" by (cases b)
  show ?case
  proof (cases "x \<le> bhi")
    case True
    with Cons.prems(2) have "\<not> bhi < lo" by simp
    with Cons.prems(1) b have "ranges_apart rs lo hi st" by simp
    then have "find_range rs x = None"
      using Cons.prems(2,3,4) by (rule ranges_apart_sound)
    with True b show ?thesis by simp
  next
    case False
    with Cons.prems(3) have "\<not> hi \<le> bhi" by simp
    with Cons.prems(1) b have "blocks_apart bs lo hi st"
      by (simp split: if_splits)
    then have "find_block bs x = None"
      using Cons.prems(2,3,4) by (rule Cons.IH)
    with False b show ?thesis by simp
  qed
qed

lemma ws_gap_sound:
  assumes "ws_gap lo hi" and "lo \<le> x" and "x \<le> hi"
  shows "\<not> is_whitespace x"
proof -
  from assms(1) have g:
    "hi < 0x9 \<or> 0xD < lo" "hi < 0x1C \<or> 0x20 < lo" "hi < 0x85 \<or> 0x85 < lo"
    "hi < 0xA0 \<or> 0xA0 < lo" "hi < 0x1680 \<or> 0x1680 < lo" "hi < 0x2000 \<or> 0x200A < lo"
    "hi < 0x2028 \<or> 0x2029 < lo" "hi < 0x202F \<or> 0x202F < lo" "hi < 0x205F \<or> 0x205F < lo"
    "hi < 0x3000 \<or> 0x3000 < lo"
    by (simp_all add: ws_gap_def)
  have "x < 0x9 \<or> 0xD < x" using g(1) assms(2,3) by linarith
  moreover have "x < 0x1C \<or> 0x20 < x" using g(2) assms(2,3) by linarith
  moreover have "x \<noteq> 0x85" using g(3) assms(2,3) by linarith
  moreover have "x \<noteq> 0xA0" using g(4) assms(2,3) by linarith
  moreover have "x \<noteq> 0x1680" using g(5) assms(2,3) by linarith
  moreover have "x < 0x2000 \<or> 0x200A < x" using g(6) assms(2,3) by linarith
  moreover have "x \<noteq> 0x2028 \<and> x \<noteq> 0x2029" using g(7) assms(2,3) by linarith
  moreover have "x \<noteq> 0x202F" using g(8) assms(2,3) by linarith
  moreover have "x \<noteq> 0x205F" using g(9) assms(2,3) by linarith
  moreover have "x \<noteq> 0x3000" using g(10) assms(2,3) by linarith
  ultimately show ?thesis
    by (auto simp: is_whitespace_def)
qed

definition maps_to :: "case_range \<Rightarrow> nat \<Rightarrow> nat \<Rightarrow> bool" where
  "maps_to r c x =
     (case r of (s, e, st, d) \<Rightarrow> s \<le> c \<and> c \<le> e \<and> (c - s) mod st = 0 \<and> x = d + (c - s))"

lemma find_range_Some: "find_range rs c = Some x \<Longrightarrow> \<exists>r\<in>set rs. maps_to r c x"
proof (induction rs)
  case Nil
  then show ?case by simp
next
  case (Cons r rs)
  obtain s e st d where r: "r = (s, e, st, d)" by (cases r)
  show ?case
  proof (cases "s \<le> c \<and> c \<le> e \<and> (c - s) mod st = 0")
    case True
    with Cons.prems r have "x = d + (c - s)" by simp
    with True r have "maps_to r c x" by (simp add: maps_to_def)
    then show ?thesis by simp
  next
    case False
    with Cons.prems r have "find_range rs c = Some x" by simp
    then have "\<exists>r\<in>set rs. maps_to r c x" by (rule Cons.IH)
    then show ?thesis by simp
  qed
qed

lemma find_block_Some:
  "find_block bs c = Some x \<Longrightarrow> \<exists>b\<in>set bs. find_range (snd b) c = Some x"
proof (induction bs)
  case Nil
  then show ?case by simp
next
  case (Cons b bs)
  obtain hi rs where b: "b = (hi, rs)" by (cases b)
  show ?case
  proof (cases "c \<le> hi")
    case True
    with Cons.prems b show ?thesis by simp
  next
    case False
    with Cons.prems b have "find_block bs c = Some x" by simp
    then have "\<exists>b\<in>set bs. find_range (snd b) c = Some x" by (rule Cons.IH)
    then show ?thesis by simp
  qed
qed

lemma image_props:
  assumes "find_block lower_table c = Some x"
  shows "find_block lower_table x = None \<and> \<not> is_whitespace x \<and> x \<noteq> 0x3A3 \<and> x \<noteq> 0x130"
proof -
  from assms obtain b where blk: "b \<in> set lower_table"
    and fr: "find_range (snd b) c = Some x"
    using find_block_Some by blast
  from fr obtain r where r: "r \<in> set (snd b)" and m: "maps_to r c x"
    using find_range_Some by blast
  obtain s e st d where rr: "r = (s, e, st, d)" by (cases r)
  from m rr have c: "s \<le> c" "c \<le> e" "(c - s) mod st = 0" and x: "x = d + (c - s)"
    by (simp_all add: maps_to_def)
  from table_images_ok blk have "list_all image_ok (snd b)"
    by (auto simp: list_all_iff)
  with r rr have ok: "image_ok (s, e, st, d)"
    by (auto simp: list_all_iff)
  have lo: "d \<le> x" and hi: "x \<le> d + (e - s)" and md: "(x - d) mod st = 0"
    using c x by simp_all
  from ok have "blocks_apart lower_table d (d + (e - s)) st"
    by (simp add: image_ok_def)
  then have "find_block lower_table x = None"
    using lo hi md by (rule blocks_apart_sound)
  moreover from ok have "ws_gap d (d + (e - s))"
    by (simp add: image_ok_def)
  then have "\<not> is_whitespace x"
    using lo hi by (rule ws_gap_sound)
  moreover from ok have "0x3A3 < d \<or> d + (e - s) < 0x3A3" and "0x130 < d \<or> d + (e - s) < 0x130"
    by (simp_all add: image_ok_def)
  with lo hi have "x \<noteq> 0x3A3" and "x \<noteq> 0x130"
    by linarith+
  ultimately show ?thesis by simp
qed

lemma special_images:
  "to_lower_full 0x69 = [0x69]" "to_lower_full 0x307 = [0x307]"
  "to_lower_full 0x3C2 = [0x3C2]" "to_lower_full 0x3C3 = [0x3C3]"
  "\<not> is_whitespace 0x69" "\<not> is_whitespace 0x307"
  "\<not> is_whitespace 0x3C2" "\<not> is_whitespace 0x3C3"
  apply (simp_all add: to_lower_full_def lower_table_def is_whitespace_def)
  apply (simp_all add: lower_block_defs)
  done

lemma to_lower_full_fixed:
  assumes "d \<in> set (to_lower_full c)" and "c \<noteq> 0x3A3"
  shows "to_lower_full d = [d] \<and> d \<noteq> 0x3A3"
proof (cases "c = 0x130")
  case True
  with assms(1) have "d = 0x69 \<or> d = 0x307" by (simp add: to_lower_full_def)
  then show ?thesis using special_images by auto
next
  case False
  show ?thesis
  proof (cases "find_block lower_table c")
    case None
    with False assms show ?thesis by (simp add: to_lower_full_def)
  next
    case (Some x)
    with False assms(1) have "d = x" by (simp add: to_lower_full_def)
    with Some image_props [of c x] show ?thesis by (simp add: to_lower_full_def)
  qed
qed

lemma to_lower_full_ws:
  assumes "d \<in> set (to_lower_full c)" and "\<not> is_whitespace c"
  shows "\<not> is_whitespace d"
proof (cases "c = 0x130")
  case True
  with assms(1) have "d = 0x69 \<or> d = 0x307" by (simp add: to_lower_full_def)
  then show ?thesis using special_images by auto
next
  case False
  show ?thesis
  proof (cases "find_block lower_table c")
    case None
    with False assms show ?thesis by (simp add: to_lower_full_def)
  next
    case (Some x)
    with False assms(1) have "d = x" by (simp add: to_lower_full_def)
    with Some image_props [of c x] show ?thesis by simp
  qed
qed

lemma lower_ucs4_fixed:
  assumes "d \<in> set (lower_ucs4 cased ignorable before c after)"
  shows "to_lower_full d = [d] \<and> d \<noteq> 0x3A3"
proof (cases "c = 0x3A3")
  case True
  with assms have "d = 0x3C2 \<or> d = 0x3C3"
    by (auto simp: lower_ucs4_def split: if_splits)
  then show ?thesis using special_images by auto
next
  case False
  with assms to_lower_full_fixed [of d c] show ?thesis
    by (simp add: lower_ucs4_def)
qed

lemma lower_ucs4_ws:
  assumes "d \<in> set (lower_ucs4 cased ignorable before c after)" and "\<not> is_whitespace c"
  shows "\<not> is_whitespace d"
proof (cases "c = 0x3A3")
  case True
  with assms have "d = 0x3C2 \<or> d = 0x3C3"
    by (auto simp: lower_ucs4_def split: if_splits)
  then show ?thesis using special_images by auto
next
  case False
  with assms to_lower_full_ws [of d c] show ?thesis
    by (simp add: lower_ucs4_def)
qed

lemma lower_ucs4_nonempty: "lower_ucs4 cased ignorable before c after \<noteq> []"
  by (simp add: lower_ucs4_def to_lower_full_def split: option.splits)

lemma do_lower_fixed:
  "d \<in> set (do_lower cased ignorable before s) \<Longrightarrow> to_lower_full d = [d] \<and> d \<noteq> 0x3A3"
proof (induction s arbitrary: before)
  case Nil
  then show ?case by simp
next
  case (Cons c after)
  from Cons.prems
  consider "d \<in> set (lower_ucs4 cased ignorable before c after)"
    | "d \<in> set (do_lower cased ignorable (c # before) after)"
    by auto
  then show ?case
  proof cases
    case 1
    then show ?thesis by (rule lower_ucs4_fixed)
  next
    case 2
    then show ?thesis by (rule Cons.IH)
  qed
qed

lemma do_lower_id:
  "\<forall>d\<in>set s. to_lower_full d = [d] \<and> d \<noteq> 0x3A3 \<Longrightarrow> do_lower cased ignorable before s = s"
  by (induction s arbitrary: before) (simp_all add: lower_ucs4_def)

lemma py_lower_idem:
  "py_lower cased ignorable (py_lower cased ignorable s) = py_lower cased ignorable s"
  unfolding py_lower_def
  by (rule do_lower_id) (blast dest: do_lower_fixed)

lemma do_lower_Nil_iff: "do_lower cased ignorable before s = [] \<longleftrightarrow> s = []"
  by (cases s) (simp_all add: lower_ucs4_nonempty)

lemma do_lower_hd:
  assumes "s \<noteq> []" and "\<not> is_whitespace (hd s)"
  shows "\<not> is_whitespace (hd (do_lower cased ignorable before s))"
proof -
  from assms(1) obtain c after where s: "s = c # after" by (cases s) auto
  have ne: "lower_ucs4 cased ignorable before c after \<noteq> []"
    by (rule lower_ucs4_nonempty)
  then have "hd (do_lower cased ignorable before s) = hd (lower_ucs4 cased ignorable before c after)"
    by (simp add: s)
  moreover from ne have "hd (lower_ucs4 cased ignorable before c after)
      \<in> set (lower_ucs4 cased ignorable before c after)"
    by simp
  ultimately show ?thesis
    using assms(2) s lower_ucs4_ws [of _ cased ignorable before c after] by simp
qed

lemma do_lower_last:
  "s \<noteq> [] \<Longrightarrow> \<not> is_whitespace (last s) \<Longrightarrow>
   \<not> is_whitespace (last (do_lower cased ignorable before s))"
proof (induction s arbitrary: before)
  case Nil
  then show ?case by simp
next
  case (Cons c after)
  show ?case
  proof (cases "after = []")
    case True
    have ne: "lower_ucs4 cased ignorable before c [] \<noteq> []"
      by (rule lower_ucs4_nonempty)
    then have "last (lower_ucs4 cased ignorable before c []) \<in> set (lower_ucs4 cased ignorable before c [])"
      by simp
    moreover from True Cons.prems(2) have "\<not> is_whitespace c" by simp
    ultimately have "\<not> is_whitespace (last (lower_ucs4 cased ignorable before c []))"
      by (rule lower_ucs4_ws)
    with True show ?thesis by simp
  next
    case False
    with Cons.prems(2) have "\<not> is_whitespace (last after)" by simp
    with False have "\<not> is_whitespace (last (do_lower cased ignorable (c # before) after))"
      by (rule Cons.IH)
    moreover from False have "do_lower cased ignorable (c # before) after \<noteq> []"
      by (simp add: do_lower_Nil_iff)
    ultimately show ?thesis by simp
  qed
qed

lemma py_strip_parts:
  "\<exists>v. dropWhile is_whitespace s = py_strip s @ v"
proof -
  let ?t = "dropWhile is_whitespace s"
  have "rev (takeWhile is_whitespace (rev ?t) @ dropWhile is_whitespace (rev ?t))
        = rev (dropWhile is_whitespace (rev ?t)) @ rev (takeWhile is_whitespace (rev ?t))"
    by (rule rev_append)
  moreover have "rev (takeWhile is_whitespace (rev ?t) @ dropWhile is_whitespace (rev ?t)) = ?t"
    by (simp only: takeWhile_dropWhile_id rev_rev_ident)
  ultimately have "?t = py_strip s @ rev (takeWhile is_whitespace (rev ?t))"
    by (simp only: py_strip_def)
  then show ?thesis ..
qed

lemma py_strip_hd: "py_strip s \<noteq> [] \<Longrightarrow> \<not> is_whitespace (hd (py_strip s))"
proof -
  assume ne: "py_strip s \<noteq> []"
  obtain v where v: "dropWhile is_whitespace s = py_strip s @ v"
    using py_strip_parts by blast
  with ne have "dropWhile is_whitespace s \<noteq> []" by simp
  then have "\<not> is_whitespace (hd (dropWhile is_whitespace s))" by (rule hd_dropWhile)
  with v ne show ?thesis by simp
qed

lemma py_strip_last: "py_strip s \<noteq> [] \<Longrightarrow> \<not> is_whitespace (last (py_strip s))"
proof -
  let ?x = "dropWhile is_whitespace (rev (dropWhile is_whitespace s))"
  assume "py_strip s \<noteq> []"
  then have ne: "?x \<noteq> []" by (simp add: py_strip_def)
  then have "\<not> is_whitespace (hd ?x)" by (rule hd_dropWhile)
  moreover from ne have "last (rev ?x) = hd ?x" by (simp add: last_rev)
  ultimately show ?thesis by (simp add: py_strip_def)
qed

lemma py_strip_id:
  assumes "u \<noteq> [] \<Longrightarrow> \<not> is_whitespace (hd u) \<and> \<not> is_whitespace (last u)"
  shows "py_strip u = u"
proof (cases "u = []")
  case True
  then show ?thesis by (simp add: py_strip_def)
next
  case False
  with assms have h: "\<not> is_whitespace (hd u)" and l: "\<not> is_whitespace (last u)" by simp_all
  from False h have d1: "dropWhile is_whitespace u = u"
    by (cases u) simp_all
  from False l have "\<not> is_whitespace (hd (rev u))" by (simp add: hd_rev)
  with False have d2: "dropWhile is_whitespace (rev u) = rev u"
    by (cases "rev u") simp_all
  show ?thesis unfolding py_strip_def d1 d2 by simp
qed

lemma py_normalize_idem:
  "py_normalize cased ignorable (py_normalize cased ignorable s) = py_normalize cased ignorable s"
proof -
  let ?t = "py_strip s"
  let ?u = "py_lower cased ignorable ?t"
  have "py_strip ?u = ?u"
  proof (rule py_strip_id)
    assume "?u \<noteq> []"
    then have t: "?t \<noteq> []" by (simp add: py_lower_def do_lower_Nil_iff)
    then have "\<not> is_whitespace (hd ?t)" and "\<not> is_whitespace (last ?t)"
      by (simp_all add: py_strip_hd py_strip_last)
    with t show "\<not> is_whitespace (hd ?u) \<and> \<not> is_whitespace (last ?u)"
      by (simp add: py_lower_def do_lower_hd do_lower_last)
  qed
  then show ?thesis
    by (simp add: py_normalize_def py_lower_idem)
qed

subsection \<open>The strings of the script are the strings over every code point, restricted\<close>

lemma is_whitespace_of_char: "is_whitespace (of_char c) = isspace c"
proof -
  define n :: nat where "n = of_char c"
  have "n < 256" unfolding n_def by (rule of_char_lt)
  then have "is_whitespace n = (n \<in> {9, 10, 11, 12, 13, 28, 29, 30, 31, 32, 133, 160})"
    by (auto simp: is_whitespace_def)
  then show ?thesis by (simp add: isspace_def n_def)
qed

lemma to_lower_full_of_char: "to_lower_full (of_char c) = [of_char (lower_char c)]"
proof -
  define n :: nat where "n = of_char c"
  have n: "n < 256" unfolding n_def by (rule of_char_lt)
  then have "find_block lower_table n = find_range lower_block_0 n"
    by (simp add: lower_table_def)
  with n have "to_lower_full n =
      [if (65 \<le> n \<and> n \<le> 90) \<or> (192 \<le> n \<and> n \<le> 222 \<and> n \<noteq> 215) then n + 32 else n]"
    by (auto simp: to_lower_full_def lower_block_0_def)
  moreover have "(of_char (lower_char c) :: nat) =
      (if (65 \<le> n \<and> n \<le> 90) \<or> (192 \<le> n \<and> n \<le> 222 \<and> n \<noteq> 215) then n + 32 else n)"
    using n by (auto simp: lower_char_def Let_def n_def)
  ultimately show ?thesis by (simp add: n_def)
qed

lemma do_lower_of_char:
  "do_lower cased ignorable before (map of_char s) = map of_char (lower s)"
proof (induction s arbitrary: before)
  case Nil
  show ?case by (simp add: lower_def)
next
  case (Cons c s)
  have "(of_char c :: nat) < 256" by (rule of_char_lt)
  then have "(of_char c :: nat) \<noteq> 0x3A3" by linarith
  then have "lower_ucs4 cased ignorable before (of_char c) (map of_char s) =
      [of_char (lower_char c)]"
    by (simp add: lower_ucs4_def to_lower_full_of_char)
  with Cons.IH [of "of_char c # before"] show ?case
    by (simp add: lower_def)
qed

lemma py_strip_of_char: "py_strip (map of_char s) = map of_char (strip s)"
proof -
  have d: "dropWhile is_whitespace (map of_char t) = map of_char (dropWhile isspace t)"
    for t :: string
    by (simp add: dropWhile_map o_def is_whitespace_of_char)
  have "py_strip (map of_char s) =
      rev (dropWhile is_whitespace (rev (map of_char (dropWhile isspace s))))"
    by (simp only: py_strip_def d)
  also have "\<dots> = rev (dropWhile is_whitespace (map of_char (rev (dropWhile isspace s))))"
    by (simp only: rev_map)
  also have "\<dots> = rev (map of_char (dropWhile isspace (rev (dropWhile isspace s))))"
    by (simp only: d)
  also have "\<dots> = map of_char (strip s)"
    by (simp only: rev_map strip_def)
  finally show ?thesis .
qed

lemma normalize_str_refines:
  "py_normalize cased ignorable (map of_char s) = map of_char (normalize_str s)"
  by (simp add: py_normalize_def py_lower_def normalize_str_def py_strip_of_char do_lower_of_char)

text \<open>
  The definitions run. Normalizing the str of the code points U+3000, U+0130, U+0391,
  U+03A3, U+0020 drops the ideographic space and the space, turns U+0130 into two code
  points and, after the cased alpha, the capital sigma into the final sigma; followed by
  a cased letter the capital sigma becomes the other sigma.
\<close>

lemma py_normalize_example:
  "py_normalize (\<lambda>c. c \<in> {0x391, 0x3A3, 0x41}) (\<lambda>c. False) [0x3000, 0x130, 0x391, 0x3A3, 0x20] =
     [0x69, 0x307, 0x3B1, 0x3C2]"
  "py_normalize (\<lambda>c. c \<in> {0x391, 0x3A3, 0x41}) (\<lambda>c. False) [0x391, 0x3A3, 0x41] =
     [0x3B1, 0x3C3, 0x61]"
  apply (simp_all add: py_normalize_def py_lower_def py_strip_def is_whitespace_def
      lower_ucs4_def final_sigma_def to_lower_full_def lower_table_def)
  apply (simp_all add: lower_block_defs)
  done

text \<open>
  C5. Normalization, trimming the whitespace at both ends and then lowercasing, is
  idempotent: for every str, of whatever code points and whatever the context of its
  capital sigmas, normalizing the normalized string changes nothing.
\<close>

theorem normalize_idempotent:
  "py_normalize cased ignorable (py_normalize cased ignorable s) = py_normalize cased ignorable s"
  by (rule py_normalize_idem)

declare loop.simps [simp del]

section \<open>One pass through the loop\<close>

lemma input_Nil:
  "stdin w = [] \<Longrightarrow> input p w = (Inl EOFError, w\<lparr>stdout := stdout w @ [Prompt p]\<rparr>)"
  by (simp add: input_def)

lemma input_Cons:
  "stdin w = l # ls \<Longrightarrow>
   input p w = (Inr l, w\<lparr>stdin := ls, stdout := stdout w @ [Prompt p]\<rparr>)"
  by (simp add: input_def)

lemma lower_normalize: "lower (normalize_str s) = normalize_str s"
  by (simp add: normalize_str_def lower_idem)

lemma loop_Break: "body brain w = (Break, brain', w') \<Longrightarrow> loop brain w = (Finished, brain', w')"
  by (subst loop.simps) simp

lemma loop_Raise: "body brain w = (Raise e, brain', w') \<Longrightarrow> loop brain w = (Raised e, brain', w')"
  by (subst loop.simps) simp

lemma loop_Continue: "body brain w = (Continue, brain', w') \<Longrightarrow> loop brain w = loop brain' w'"
  by (subst loop.simps) simp

lemma body_quit:
  assumes "normalize_str l = ''quit''" and "stdin w = l # rest"
  shows "body brain w = (Break, brain, w\<lparr>stdin := rest, stdout := stdout w @ [Prompt ''You:'']\<rparr>)"
proof -
  from assms(1) have "lower (lower (strip l)) = ''quit''"
    using lower_normalize [of l] by (simp add: normalize_str_def)
  with assms(2) show ?thesis
    by (simp add: body_def input_Cons)
qed

lemma body_known:
  assumes "normalize_str l \<noteq> ''quit''" and "stdin w = l # rest"
    and "fmlookup m (normalize_str l) = Some v"
  shows "body (PDict m) w =
    (Continue, PDict m,
     w\<lparr>stdin := rest, stdout := stdout w @ [Prompt ''You:'', Print [PStr ''Bot:'', v]]\<rparr>)"
proof -
  from assms(1) have nq: "lower (lower (strip l)) \<noteq> ''quit''"
    using lower_normalize [of l] by (simp add: normalize_str_def)
  from assms(3) have mem: "lower (strip l) |\<in>| fmdom m"
    by (simp add: normalize_str_def fmdomI)
  from assms(3) have lk: "fmlookup m (lower (strip l)) = Some v"
    by (simp add: normalize_str_def)
  show ?thesis
    using assms(2) nq mem lk
    by (simp add: body_def input_Cons print_def)
qed

lemma body_unknown:
  assumes "normalize_str l \<noteq> ''quit''" and "stdin w = l # t # rest"
    and "fmlookup m (normalize_str l) = None"
  shows "body (PDict m) w =
    (Continue, PDict (fmupd (normalize_str l) (PStr t) m),
     w\<lparr>stdin := rest,
       stdout := stdout w @
         [Prompt ''You:'', Print [PStr ''Bot: I don't know what to say''],
          Prompt ''Can you teach me?'', Print [PStr ''Bot: Got it! I'll remember that'']]\<rparr>)"
proof -
  from assms(1) have nq: "lower (lower (strip l)) \<noteq> ''quit''"
    using lower_normalize [of l] by (simp add: normalize_str_def)
  from assms(3) have mem: "lower (strip l) |\<notin>| fmdom m"
    by (simp add: normalize_str_def fmdom_notI)
  show ?thesis
    using assms(2) nq mem
    by (simp add: body_def input_Cons print_def normalize_str_def)
qed

lemma body_unknown_eof:
  assumes "normalize_str l \<noteq> ''quit''" and "stdin w = [l]"
    and "fmlookup m (normalize_str l) = None"
  shows "body (PDict m) w =
    (Raise EOFError, PDict m,
     w\<lparr>stdin := [],
       stdout := stdout w @
         [Prompt ''You:'', Print [PStr ''Bot: I don't know what to say''],
          Prompt ''Can you teach me?'']\<rparr>)"
proof -
  from assms(1) have nq: "lower (lower (strip l)) \<noteq> ''quit''"
    using lower_normalize [of l] by (simp add: normalize_str_def)
  from assms(3) have mem: "lower (strip l) |\<notin>| fmdom m"
    by (simp add: normalize_str_def fmdom_notI)
  show ?thesis
    using assms(2) nq mem
    by (simp add: body_def input_Cons input_Nil print_def normalize_str_def)
qed

lemma body_eof:
  "stdin w = [] \<Longrightarrow>
   body brain w = (Raise EOFError, brain, w\<lparr>stdout := stdout w @ [Prompt ''You:'']\<rparr>)"
  by (simp add: body_def input_Nil)

section \<open>Leaving the session\<close>

text \<open>
  C3. Whenever the line read at the \<open>You:\<close> prompt normalizes to \<open>quit\<close>, whatever
  its casing and the whitespace around it, the session ends at once: the process finishes,
  \<open>brain\<close> is what it was (no entry is added), nothing is written after the prompt (no
  reply from a lookup, no teach dialogue) and the lines that follow stay unread. This holds
  for every value of \<open>brain\<close>, also one on which a lookup would raise.
\<close>

theorem quit_short_circuits:
  assumes "normalize_str l = ''quit''" and "stdin w = l # rest"
  shows "loop brain w =
    (Finished, brain, w\<lparr>stdin := rest, stdout := stdout w @ [Prompt ''You:'']\<rparr>)"
  using assms by (simp add: loop_Break body_quit)

theorem quit_short_circuits_witness:
  "normalize_str '' QuIt '' = ''quit'' \<and>
   loop (PList []) \<lparr>disk = None, stdin = ['' QuIt '', ''hello''], stdout = []\<rparr> =
     (Finished, PList [], \<lparr>disk = None, stdin = [''hello''], stdout = [Prompt ''You:'']\<rparr>)"
  using quit_short_circuits [of "'' QuIt ''" "\<lparr>disk = None, stdin = ['' QuIt '', ''hello''], stdout = []\<rparr>"
      "[''hello'']" "PList []"]
  by (simp add: normalize_str_def lower_def strip_def isspace_def lower_char_def char_of_eq_iff)

section \<open>Teaching and looking up\<close>

text \<open>
  C8. The teach flow. When the phrase read is not \<open>quit\<close> and not a key of the table,
  one pass through the loop shows the fixed message, prompts for the answer, stores under
  the normalized phrase exactly the line read at that prompt (no trimming, no lowercasing),
  shows the fixed acknowledgement and goes back to waiting for input.
\<close>

theorem teach_flow:
  assumes "stdin w = l # t # rest"
    and "normalize_str l \<noteq> ''quit''"
    and "fmlookup m (normalize_str l) = None"
  shows "body (PDict m) w =
    (Continue, PDict (fmupd (normalize_str l) (PStr t) m),
     w\<lparr>stdin := rest,
       stdout := stdout w @
         [Prompt ''You:'', Print [PStr ''Bot: I don't know what to say''],
          Prompt ''Can you teach me?'', Print [PStr ''Bot: Got it! I'll remember that'']]\<rparr>)"
  using assms by (simp add: body_unknown)

theorem teach_flow_witness:
  "body (PDict fmempty)
     \<lparr>disk = None, stdin = ['' Good Morning'', ''  Hi THERE '', ''quit''], stdout = []\<rparr> =
    (Continue, PDict (fmupd ''good morning'' (PStr ''  Hi THERE '') fmempty),
     \<lparr>disk = None, stdin = [''quit''],
      stdout = [Prompt ''You:'', Print [PStr ''Bot: I don't know what to say''],
          Prompt ''Can you teach me?'', Print [PStr ''Bot: Got it! I'll remember that'']]\<rparr>)"
proof -
  have n: "normalize_str '' Good Morning'' = ''good morning''"
    by (simp add: normalize_str_def lower_def strip_def isspace_def lower_char_def char_of_eq_iff)
  show ?thesis
    using teach_flow [of "\<lparr>disk = None, stdin = ['' Good Morning'', ''  Hi THERE '', ''quit''], stdout = []\<rparr>"
      "'' Good Morning''" "''  Hi THERE ''" "[''quit'']" fmempty]
    by (simp add: n)
qed

lemma normalize_hello: "normalize_str ''hello'' = ''hello''"
  by (simp add: normalize_str_def lower_def strip_def isspace_def lower_char_def)

text \<open>
  C4. Lookup after teach. Starting from the empty table, teaching the phrase \<open>hello\<close>
  the answer \<open>hi there\<close> leaves the table with that one pair, and the next line, when it
  normalizes to \<open>hello\<close> (such as \<open>" Hello "\<close>), is answered with exactly
  \<open>hi there\<close>; the table stays as it is.
\<close>

theorem lookup_after_teach:
  assumes "normalize_str l = ''hello''"
    and "stdin w = ''hello'' # ''hi there'' # l # rest"
  shows "body (PDict fmempty) w =
      (Continue, PDict (fmupd ''hello'' (PStr ''hi there'') fmempty),
       w\<lparr>stdin := l # rest,
         stdout := stdout w @
           [Prompt ''You:'', Print [PStr ''Bot: I don't know what to say''],
            Prompt ''Can you teach me?'', Print [PStr ''Bot: Got it! I'll remember that'']]\<rparr>)
    \<and> body (PDict (fmupd ''hello'' (PStr ''hi there'') fmempty))
        (w\<lparr>stdin := l # rest,
           stdout := stdout w @
             [Prompt ''You:'', Print [PStr ''Bot: I don't know what to say''],
              Prompt ''Can you teach me?'', Print [PStr ''Bot: Got it! I'll remember that'']]\<rparr>) =
      (Continue, PDict (fmupd ''hello'' (PStr ''hi there'') fmempty),
       w\<lparr>stdin := rest,
         stdout := stdout w @
           [Prompt ''You:'', Print [PStr ''Bot: I don't know what to say''],
            Prompt ''Can you teach me?'', Print [PStr ''Bot: Got it! I'll remember that''],
            Prompt ''You:'', Print [PStr ''Bot:'', PStr ''hi there'']]\<rparr>)"
proof
  have "body (PDict fmempty) w =
    (Continue, PDict (fmupd (normalize_str ''hello'') (PStr ''hi there'') fmempty),
     w\<lparr>stdin := l # rest,
       stdout := stdout w @
         [Prompt ''You:'', Print [PStr ''Bot: I don't know what to say''],
          Prompt ''Can you teach me?'', Print [PStr ''Bot: Got it! I'll remember that'']]\<rparr>)"
    by (rule body_unknown) (simp_all add: normalize_hello assms(2))
  then show "body (PDict fmempty) w =
      (Continue, PDict (fmupd ''hello'' (PStr ''hi there'') fmempty),
       w\<lparr>stdin := l # rest,
         stdout := stdout w @
           [Prompt ''You:'', Print [PStr ''Bot: I don't know what to say''],
            Prompt ''Can you teach me?'', Print [PStr ''Bot: Got it! I'll remember that'']]\<rparr>)"
    by (simp add: normalize_hello)
next
  let ?w1 = "w\<lparr>stdin := l # rest,
           stdout := stdout w @
             [Prompt ''You:'', Print [PStr ''Bot: I don't know what to say''],
              Prompt ''Can you teach me?'', Print [PStr ''Bot: Got it! I'll remember that'']]\<rparr>"
  have "body (PDict (fmupd ''hello'' (PStr ''hi there'') fmempty)) ?w1 =
    (Continue, PDict (fmupd ''hello'' (PStr ''hi there'') fmempty),
     ?w1\<lparr>stdin := rest,
        stdout := stdout ?w1 @ [Prompt ''You:'', Print [PStr ''Bot:'', PStr ''hi there'']]\<rparr>)"
    by (rule body_known [where l = l]) (simp_all add: assms(1))
  then show "body (PDict (fmupd ''hello'' (PStr ''hi there'') fmempty)) ?w1 =
      (Continue, PDict (fmupd ''hello'' (PStr ''hi there'') fmempty),
       w\<lparr>stdin := rest,
         stdout := stdout w @
           [Prompt ''You:'', Print [PStr ''Bot: I don't know what to say''],
            Prompt ''Can you teach me?'', Print [PStr ''Bot: Got it! I'll remember that''],
            Prompt ''You:'', Print [PStr ''Bot:'', PStr ''hi there'']]\<rparr>)"
    by simp
qed

theorem lookup_after_teach_witness:
  "normalize_str '' Hello '' = ''hello'' \<and>
   body (PDict fmempty)
     \<lparr>disk = None, stdin = [''hello'', ''hi there'', '' Hello '', ''quit''], stdout = []\<rparr> =
     (Continue, PDict (fmupd ''hello'' (PStr ''hi there'') fmempty),
      \<lparr>disk = None, stdin = ['' Hello '', ''quit''],
       stdout = [Prompt ''You:'', Print [PStr ''Bot: I don't know what to say''],
            Prompt ''Can you teach me?'', Print [PStr ''Bot: Got it! I'll remember that'']]\<rparr>) \<and>
   body (PDict (fmupd ''hello'' (PStr ''hi there'') fmempty))
      \<lparr>disk = None, stdin = ['' Hello '', ''quit''],
       stdout = [Prompt ''You:'', Print [PStr ''Bot: I don't know what to say''],
            Prompt ''Can you teach me?'', Print [PStr ''Bot: Got it! I'll remember that'']]\<rparr> =
     (Continue, PDict (fmupd ''hello'' (PStr ''hi there'') fmempty),
      \<lparr>disk = None, stdin = [''quit''],
       stdout = [Prompt ''You:'', Print [PStr ''Bot: I don't know what to say''],
            Prompt ''Can you teach me?'', Print [PStr ''Bot: Got it! I'll remember that''],
            Prompt ''You:'', Print [PStr ''Bot:'', PStr ''hi there'']]\<rparr>)"
proof -
  have n: "normalize_str '' Hello '' = ''hello''"
    by (simp add: normalize_str_def lower_def strip_def isspace_def lower_char_def char_of_eq_iff)
  show ?thesis
    using n lookup_after_teach [OF n, of
        "\<lparr>disk = None, stdin = [''hello'', ''hi there'', '' Hello '', ''quit''], stdout = []\<rparr>"
        "[''quit'']"]
    by simp
qed

lemma normalize_blank:
  assumes "\<forall>c\<in>set l. isspace c"
  shows "normalize_str l = []"
proof -
  from assms have d: "dropWhile isspace l = []" by (induction l) simp_all
  show ?thesis unfolding normalize_str_def strip_def lower_def d by simp
qed

text \<open>
  C10. Empty and whitespace-only lines get no special treatment. Such a line normalizes to
  the empty string; when the empty string is not a key, the teach flow runs and stores the
  answer under the empty-string key, and the next empty or whitespace-only line is answered
  with what was taught.
\<close>

theorem blank_input_is_a_phrase:
  assumes "\<forall>c\<in>set l1. isspace c" and "\<forall>c\<in>set l2. isspace c"
    and "fmlookup m [] = None"
    and "stdin w = l1 # t # l2 # rest"
  shows "normalize_str l1 = [] \<and>
    body (PDict m) w =
      (Continue, PDict (fmupd [] (PStr t) m),
       w\<lparr>stdin := l2 # rest,
         stdout := stdout w @
           [Prompt ''You:'', Print [PStr ''Bot: I don't know what to say''],
            Prompt ''Can you teach me?'', Print [PStr ''Bot: Got it! I'll remember that'']]\<rparr>) \<and>
    body (PDict (fmupd [] (PStr t) m))
        (w\<lparr>stdin := l2 # rest,
           stdout := stdout w @
             [Prompt ''You:'', Print [PStr ''Bot: I don't know what to say''],
              Prompt ''Can you teach me?'', Print [PStr ''Bot: Got it! I'll remember that'']]\<rparr>) =
      (Continue, PDict (fmupd [] (PStr t) m),
       w\<lparr>stdin := rest,
         stdout := stdout w @
           [Prompt ''You:'', Print [PStr ''Bot: I don't know what to say''],
            Prompt ''Can you teach me?'', Print [PStr ''Bot: Got it! I'll remember that''],
            Prompt ''You:'', Print [PStr ''Bot:'', PStr t]]\<rparr>)"
proof -
  let ?w1 = "w\<lparr>stdin := l2 # rest,
           stdout := stdout w @
             [Prompt ''You:'', Print [PStr ''Bot: I don't know what to say''],
              Prompt ''Can you teach me?'', Print [PStr ''Bot: Got it! I'll remember that'']]\<rparr>"
  have n1: "normalize_str l1 = []" and n2: "normalize_str l2 = []"
    using assms(1,2) by (simp_all add: normalize_blank)
  have s1: "body (PDict m) w = (Continue, PDict (fmupd (normalize_str l1) (PStr t) m), ?w1)"
    by (rule body_unknown) (simp_all add: n1 assms(3,4))
  have s2: "body (PDict (fmupd [] (PStr t) m)) ?w1 =
    (Continue, PDict (fmupd [] (PStr t) m),
     ?w1\<lparr>stdin := rest,
        stdout := stdout ?w1 @ [Prompt ''You:'', Print [PStr ''Bot:'', PStr t]]\<rparr>)"
    by (rule body_known [where l = l2]) (simp_all add: n2)
  from n1 s1 s2 show ?thesis by simp
qed

theorem blank_input_is_a_phrase_witness:
  "isspace CHR '' '' \<and>
   normalize_str ''   '' = [] \<and>
   body (PDict fmempty) \<lparr>disk = None, stdin = [''   '', ''Say something'', [], ''quit''], stdout = []\<rparr> =
     (Continue, PDict (fmupd [] (PStr ''Say something'') fmempty),
      \<lparr>disk = None, stdin = [[], ''quit''],
       stdout = [Prompt ''You:'', Print [PStr ''Bot: I don't know what to say''],
            Prompt ''Can you teach me?'', Print [PStr ''Bot: Got it! I'll remember that'']]\<rparr>) \<and>
   body (PDict (fmupd [] (PStr ''Say something'') fmempty))
      \<lparr>disk = None, stdin = [[], ''quit''],
       stdout = [Prompt ''You:'', Print [PStr ''Bot: I don't know what to say''],
            Prompt ''Can you teach me?'', Print [PStr ''Bot: Got it! I'll remember that'']]\<rparr> =
     (Continue, PDict (fmupd [] (PStr ''Say something'') fmempty),
      \<lparr>disk = None, stdin = [''quit''],
       stdout = [Prompt ''You:'', Print [PStr ''Bot: I don't know what to say''],
            Prompt ''Can you teach me?'', Print [PStr ''Bot: Got it! I'll remember that''],
            Prompt ''You:'', Print [PStr ''Bot:'', PStr ''Say something'']]\<rparr>)"
proof -
  have a: "\<forall>c\<in>set ''   ''. isspace c" by (simp add: isspace_def)
  have b: "\<forall>c\<in>set ([]::string). isspace c" by simp
  have c: "isspace CHR '' ''" by (simp add: isspace_def)
  show ?thesis
    using c blank_input_is_a_phrase [OF a b, of fmempty
        "\<lparr>disk = None, stdin = [''   '', ''Say something'', [], ''quit''], stdout = []\<rparr>"
        "''Say something''" "[''quit'']"]
    by simp
qed

section \<open>What every pass and every session keeps\<close>

lemma body_dict_step:
  assumes "body (PDict m) w = (c, b', w')"
  shows "b' = PDict m \<or>
    (\<exists>l t. fmlookup m (normalize_str l) = None \<and> b' = PDict (fmupd (normalize_str l) (PStr t) m))"
  using assms
  by (auto simp: body_def Let_def normalize_str_def input_def
      split: if_splits sum.splits bool.splits prod.splits list.splits option.splits)

lemma body_dict_Raise:
  assumes "body (PDict m) w = (Raise e, b', w')"
  shows "e = EOFError"
  using assms
  by (auto simp: body_def Let_def input_def fmlookup_dom_iff
      split: if_splits sum.splits bool.splits prod.splits list.splits option.splits)

lemma body_Break:
  assumes "body brain w = (Break, b', w')"
  shows "\<exists>l rest. stdin w = l # rest \<and> normalize_str l = ''quit''"
  using assms lower_normalize
  by (auto simp: body_def Let_def input_def normalize_str_def
      split: if_splits sum.splits bool.splits prod.splits list.splits option.splits)

lemma body_stdin_suffix:
  assumes "body brain w = (c, b', w')"
  shows "set (stdin w') \<subseteq> set (stdin w)"
  using assms
  by (auto simp: body_def Let_def input_def
      split: if_splits sum.splits bool.splits prod.splits list.splits option.splits)

lemma body_disk:
  assumes "body brain w = (c, b', w')"
  shows "disk w' = disk w"
  using assms
  by (auto simp: body_def Let_def input_def print_def
      split: if_splits sum.splits bool.splits prod.splits list.splits option.splits)


lemma loop_last_pass:
  assumes "loop brain w = (oc, b', w')"
    and "P brain w"
    and step: "\<And>b w b1 w1. P b w \<Longrightarrow> body b w = (Continue, b1, w1) \<Longrightarrow> P b1 w1"
  shows "\<exists>b0 w0. P b0 w0 \<and>
    ((oc = Finished \<and> body b0 w0 = (Break, b', w')) \<or>
     (\<exists>e. oc = Raised e \<and> body b0 w0 = (Raise e, b', w')))"
  using assms(1,2)
proof (induction "length (stdin w)" arbitrary: brain w rule: less_induct)
  case less
  obtain c b1 w1 where b: "body brain w = (c, b1, w1)"
    by (cases "body brain w")
  show ?case
  proof (cases c)
    case Break
    with b less.prems(1) have "oc = Finished \<and> b' = b1 \<and> w' = w1"
      by (simp add: loop_Break)
    with b Break less.prems(2) show ?thesis by blast
  next
    case (Raise e)
    with b less.prems(1) have "oc = Raised e \<and> b' = b1 \<and> w' = w1"
      by (simp add: loop_Raise)
    with b Raise less.prems(2) show ?thesis by blast
  next
    case Continue
    with b have l: "loop b1 w1 = (oc, b', w')"
      using less.prems(1) by (simp add: loop_Continue)
    from b Continue have lt: "length (stdin w1) < length (stdin w)"
      by (simp add: body_Continue_stdin)
    from b Continue less.prems(2) have "P b1 w1"
      by (simp add: step)
    with lt l show ?thesis
      by (rule less.hyps)
  qed
qed

lemma loop_dict_grows:
  assumes "loop (PDict m) w = (oc, b', w')"
  shows "\<exists>m'. b' = PDict m' \<and> (\<forall>k v. fmlookup m k = Some v \<longrightarrow> fmlookup m' k = Some v)"
proof -
  let ?P = "\<lambda>b (w::world). \<exists>m'. b = PDict m' \<and> (\<forall>k v. fmlookup m k = Some v \<longrightarrow> fmlookup m' k = Some v)"
  have step: "?P b1 w1" if "?P b w" and "body b w = (c, b1, w1)" for b w c b1 w1
  proof -
    from that(1) obtain m1 where m1: "b = PDict m1"
      and sub: "\<forall>k v. fmlookup m k = Some v \<longrightarrow> fmlookup m1 k = Some v" by blast
    from that(2) m1 body_dict_step [of m1 w c b1 w1]
    consider "b1 = PDict m1"
      | l t where "fmlookup m1 (normalize_str l) = None"
          "b1 = PDict (fmupd (normalize_str l) (PStr t) m1)"
      by blast
    then show ?thesis
    proof cases
      case 1
      with sub show ?thesis by blast
    next
      case 2
      with sub show ?thesis by auto
    qed
  qed
  have "?P (PDict m) w" by blast
  with assms obtain b0 w0 where p: "?P b0 w0"
    and last: "(oc = Finished \<and> body b0 w0 = (Break, b', w')) \<or>
     (\<exists>e. oc = Raised e \<and> body b0 w0 = (Raise e, b', w'))"
    using loop_last_pass [of "PDict m" w oc b' w' ?P] step by blast
  from last obtain c where "body b0 w0 = (c, b', w')" by blast
  with p show ?thesis by (rule step)
qed

section \<open>Stored answers are never overwritten\<close>

text \<open>Facts for running the script on concrete input.\<close>

lemmas run_simps =
  loop.simps body_def input_def print_def normalize_str_def lower_def strip_def isspace_def
  lower_char_def char_of_def bit_Suc_0_iff

text \<open>
  C9. Within a session the answer stored for a phrase is never overwritten. A line whose
  normalized form is a key is answered with the stored value (or, when that key is
  \<open>quit\<close>, ends the session) and leaves the table as it is. One pass through the loop
  either leaves the table unchanged or adds one entry under a key that was absent. So
  every entry present at some point is still there, with the same value, when the
  session ends.
\<close>

theorem stored_responses_never_overwritten:
  "(\<forall>l rest v. stdin w = l # rest \<and> fmlookup m (normalize_str l) = Some v \<longrightarrow>
      body (PDict m) w =
        (if normalize_str l = ''quit''
         then (Break, PDict m, w\<lparr>stdin := rest, stdout := stdout w @ [Prompt ''You:'']\<rparr>)
         else (Continue, PDict m,
               w\<lparr>stdin := rest,
                 stdout := stdout w @ [Prompt ''You:'', Print [PStr ''Bot:'', v]]\<rparr>))) \<and>
   (\<forall>c b' w'. body (PDict m) w = (c, b', w') \<longrightarrow>
      b' = PDict m \<or>
      (\<exists>k t. fmlookup m k = None \<and> b' = PDict (fmupd k (PStr t) m))) \<and>
   (\<forall>oc b' w'. loop (PDict m) w = (oc, b', w') \<longrightarrow>
      (\<exists>m'. b' = PDict m' \<and> (\<forall>k v. fmlookup m k = Some v \<longrightarrow> fmlookup m' k = Some v)))"
proof (intro conjI allI impI)
  fix l rest v
  assume a: "stdin w = l # rest \<and> fmlookup m (normalize_str l) = Some v"
  show "body (PDict m) w =
        (if normalize_str l = ''quit''
         then (Break, PDict m, w\<lparr>stdin := rest, stdout := stdout w @ [Prompt ''You:'']\<rparr>)
         else (Continue, PDict m,
               w\<lparr>stdin := rest,
                 stdout := stdout w @ [Prompt ''You:'', Print [PStr ''Bot:'', v]]\<rparr>))"
  proof (cases "normalize_str l = ''quit''")
    case True
    with a show ?thesis by (simp add: body_quit)
  next
    case False
    with a show ?thesis by (simp add: body_known)
  qed
next
  fix c b' w'
  assume "body (PDict m) w = (c, b', w')"
  then show "b' = PDict m \<or> (\<exists>k t. fmlookup m k = None \<and> b' = PDict (fmupd k (PStr t) m))"
    using body_dict_step [of m w c b' w'] by blast
next
  fix oc b' w'
  assume "loop (PDict m) w = (oc, b', w')"
  then show "\<exists>m'. b' = PDict m' \<and> (\<forall>k v. fmlookup m k = Some v \<longrightarrow> fmlookup m' k = Some v)"
    by (rule loop_dict_grows)
qed


theorem stored_responses_never_overwritten_witness:
  "stdin \<lparr>disk = None, stdin = [''Hello'', ''bye'', ''see you'', ''quit''], stdout = []\<rparr> =
     ''Hello'' # [''bye'', ''see you'', ''quit''] \<and>
   fmlookup (fmupd ''hello'' (PStr ''hi'') fmempty) (normalize_str ''Hello'') = Some (PStr ''hi'') \<and>
   body (PDict (fmupd ''hello'' (PStr ''hi'') fmempty))
     \<lparr>disk = None, stdin = [''Hello'', ''bye'', ''see you'', ''quit''], stdout = []\<rparr> =
     (Continue, PDict (fmupd ''hello'' (PStr ''hi'') fmempty),
      \<lparr>disk = None, stdin = [''bye'', ''see you'', ''quit''],
       stdout = [Prompt ''You:'', Print [PStr ''Bot:'', PStr ''hi'']]\<rparr>) \<and>
   loop (PDict (fmupd ''hello'' (PStr ''hi'') fmempty))
     \<lparr>disk = None, stdin = [''Hello'', ''bye'', ''see you'', ''quit''], stdout = []\<rparr> =
     (Finished, PDict (fmupd ''bye'' (PStr ''see you'') (fmupd ''hello'' (PStr ''hi'') fmempty)),
      \<lparr>disk = None, stdin = [],
       stdout = [Prompt ''You:'', Print [PStr ''Bot:'', PStr ''hi''],
         Prompt ''You:'', Print [PStr ''Bot: I don't know what to say''],
         Prompt ''Can you teach me?'', Print [PStr ''Bot: Got it! I'll remember that''],
         Prompt ''You:'']\<rparr>) \<and>
   fmlookup (fmupd ''bye'' (PStr ''see you'') (fmupd ''hello'' (PStr ''hi'') fmempty)) ''hello'' =
     Some (PStr ''hi'')"
proof -
  let ?m = "fmupd ''hello'' (PStr ''hi'') fmempty"
  let ?w = "\<lparr>disk = None, stdin = [''Hello'', ''bye'', ''see you'', ''quit''], stdout = []\<rparr>"
  have n: "normalize_str ''Hello'' = ''hello''"
    by (simp add: run_simps)
  have run: "loop (PDict ?m) ?w =
     (Finished, PDict (fmupd ''bye'' (PStr ''see you'') ?m),
      \<lparr>disk = None, stdin = [],
       stdout = [Prompt ''You:'', Print [PStr ''Bot:'', PStr ''hi''],
         Prompt ''You:'', Print [PStr ''Bot: I don't know what to say''],
         Prompt ''Can you teach me?'', Print [PStr ''Bot: Got it! I'll remember that''],
         Prompt ''You:'']\<rparr>)"
    by (simp add: run_simps)
  note t = stored_responses_never_overwritten [of ?w ?m]
  from t have "body (PDict ?m) ?w =
     (Continue, PDict ?m,
      \<lparr>disk = None, stdin = [''bye'', ''see you'', ''quit''],
       stdout = [Prompt ''You:'', Print [PStr ''Bot:'', PStr ''hi'']]\<rparr>)"
    using n by simp
  moreover from t run
  have "fmlookup (fmupd ''bye'' (PStr ''see you'') ?m) ''hello'' = Some (PStr ''hi'')"
    by simp
  ultimately show ?thesis
    using n run by simp
qed

section \<open>Normalized keys\<close>

text \<open>
  A storage file may hold a key that is not normalized; \<open>load\<close> takes it as it is.
\<close>

theorem keys_normalized_counterexample:
  "load \<lparr>disk = Some (Document (PDict (fmupd ''Hello '' (PStr ''hi'') fmempty))),
         stdin = [], stdout = []\<rparr> =
     Inr (PDict (fmupd ''Hello '' (PStr ''hi'') fmempty)) \<and>
   \<not> keys_normalized (fmupd ''Hello '' (PStr ''hi'') fmempty)"
  by (simp add: load_def keys_normalized_def run_simps)

lemma keys_normalized_fmupd:
  "keys_normalized m \<Longrightarrow> keys_normalized (fmupd (normalize_str l) v m)"
  by (auto simp: keys_normalized_def normalize_str_idem)

lemma body_keys_normalized:
  assumes "keys_normalized m" and "body (PDict m) w = (c, b', w')"
  shows "\<exists>m'. b' = PDict m' \<and> keys_normalized m'"
  using body_dict_step [OF assms(2)] assms(1)
  by (auto simp: keys_normalized_fmupd)

lemma loop_keys_normalized:
  assumes "keys_normalized m" and "loop (PDict m) w = (oc, b', w')"
  shows "\<exists>m'. b' = PDict m' \<and> keys_normalized m'"
proof -
  let ?P = "\<lambda>b (w::world). \<exists>m'. b = PDict m' \<and> keys_normalized m'"
  have step: "?P b1 w1" if "?P b w" and "body b w = (c, b1, w1)" for b w c b1 w1
    using that body_keys_normalized by blast
  from assms(1) have "?P (PDict m) w" by blast
  with assms(2) obtain b0 w0 where p: "?P b0 w0"
    and last: "(oc = Finished \<and> body b0 w0 = (Break, b', w')) \<or>
     (\<exists>e. oc = Raised e \<and> body b0 w0 = (Raise e, b', w'))"
    using loop_last_pass [of "PDict m" w oc b' w' ?P] step by blast
  from last obtain c where "body b0 w0 = (c, b', w')" by blast
  with p show ?thesis by (rule step)
qed

text \<open>
  C7, amended. Teaching keeps the keys normalized: when every key of the table is
  normalized at the start of a pass through the loop, it is so after the pass, and hence
  when the session ends; and the table bound at startup when no storage file exists is
  empty, so it has only normalized keys. Nothing is claimed for keys read from an existing
  storage file: they are taken as they are.
\<close>

theorem teaching_keeps_keys_normalized:
  assumes "keys_normalized m"
  shows "(\<forall>c b' w'. body (PDict m) w = (c, b', w') \<longrightarrow>
            (\<exists>m'. b' = PDict m' \<and> keys_normalized m')) \<and>
         (\<forall>oc b' w'. loop (PDict m) w = (oc, b', w') \<longrightarrow>
            (\<exists>m'. b' = PDict m' \<and> keys_normalized m')) \<and>
         load (w\<lparr>disk := None\<rparr>) = Inr (PDict fmempty) \<and> keys_normalized fmempty"
  using assms body_keys_normalized loop_keys_normalized
  by (auto simp: load_def keys_normalized_def)


theorem teaching_keeps_keys_normalized_witness:
  "keys_normalized (fmupd ''hello'' (PStr ''hi'') fmempty) \<and>
   loop (PDict (fmupd ''hello'' (PStr ''hi'') fmempty))
     \<lparr>disk = None, stdin = ['' Bye'', ''See You'', ''quit''], stdout = []\<rparr> =
     (Finished, PDict (fmupd ''bye'' (PStr ''See You'') (fmupd ''hello'' (PStr ''hi'') fmempty)),
      \<lparr>disk = None, stdin = [],
       stdout = [Prompt ''You:'', Print [PStr ''Bot: I don't know what to say''],
         Prompt ''Can you teach me?'', Print [PStr ''Bot: Got it! I'll remember that''],
         Prompt ''You:'']\<rparr>) \<and>
   keys_normalized (fmupd ''bye'' (PStr ''See You'') (fmupd ''hello'' (PStr ''hi'') fmempty))"
proof -
  let ?m = "fmupd ''hello'' (PStr ''hi'') fmempty"
  let ?w = "\<lparr>disk = None, stdin = ['' Bye'', ''See You'', ''quit''], stdout = []\<rparr>"
  have k: "keys_normalized ?m"
    by (simp add: keys_normalized_def run_simps)
  have run: "loop (PDict ?m) ?w =
     (Finished, PDict (fmupd ''bye'' (PStr ''See You'') ?m),
      \<lparr>disk = None, stdin = [],
       stdout = [Prompt ''You:'', Print [PStr ''Bot: I don't know what to say''],
         Prompt ''Can you teach me?'', Print [PStr ''Bot: Got it! I'll remember that''],
         Prompt ''You:'']\<rparr>)"
    by (simp add: run_simps)
  from teaching_keeps_keys_normalized [OF k, of ?w] run
  have "keys_normalized (fmupd ''bye'' (PStr ''See You'') ?m)"
    by simp
  with k run show ?thesis by simp
qed

section \<open>Loading the storage file\<close>

text \<open>
  An existing file that holds \<open>{}\<close> gives the empty table too. An existing file that
  holds valid JSON other than an object, such as \<open>[1]\<close>, is loaded without any error:
  the session starts, reports one memory, and dies of a \<open>TypeError\<close> only when it
  tries to store the first answer.
\<close>

theorem load_counterexample:
  "load \<lparr>disk = Some (Document (PDict fmempty)), stdin = [], stdout = []\<rparr> = Inr (PDict fmempty) \<and>
   disk \<lparr>disk = Some (Document (PDict fmempty)), stdin = [], stdout = []\<rparr> \<noteq> None \<and>
   load \<lparr>disk = Some (Document (PList [PInt 1])), stdin = [''hi'', ''there''], stdout = []\<rparr> =
     Inr (PList [PInt 1]) \<and>
   main \<lparr>disk = Some (Document (PList [PInt 1])), stdin = [''hi'', ''there''], stdout = []\<rparr> =
     (Raised TypeError, Some (PList [PInt 1]),
      \<lparr>disk = Some (Document (PList [PInt 1])), stdin = [],
       stdout = [Print [PStr ''Memories Loaded'', PInt 1],
         Print [PStr ''hey, teach me how to talk.  type quit to exit''],
         Prompt ''You:'', Print [PStr ''Bot: I don't know what to say''],
         Prompt ''Can you teach me?'']\<rparr>)"
  by (simp add: load_def main_def run_simps)

text \<open>
  C6, amended. Loading ends the process with an uncaught exception, before anything is
  printed and with exit code 1, exactly when the storage file exists and opening, decoding
  or parsing it raises; the exception is the one raised there (\<open>JSONDecodeError\<close> for
  text that is not JSON, but also \<open>UnicodeDecodeError\<close>, \<open>RecursionError\<close>,
  \<open>ValueError\<close> or \<open>OSError\<close>), and no table, empty or partial, is returned then.
  The empty table is returned exactly when no storage file exists or the file holds the
  empty object. When the file exists and \<open>json.load\<close> returns a document, that document
  is returned as it is, whatever its shape.
\<close>

theorem load_outcomes:
  "load (w\<lparr>disk := None\<rparr>) = Inr (PDict fmempty) \<and>
   load (w\<lparr>disk := Some (Document v)\<rparr>) = Inr v \<and>
   load (w\<lparr>disk := Some (Fails e)\<rparr>) = Inl (LoadError e) \<and>
   main (w\<lparr>disk := Some (Fails e)\<rparr>) =
     (Raised (LoadError e), None, w\<lparr>disk := Some (Fails e)\<rparr>) \<and>
   exit_code (fst (main (w\<lparr>disk := Some (Fails e)\<rparr>))) = 1 \<and>
   ((\<exists>x. load w = Inl x) = (\<exists>e'. disk w = Some (Fails e'))) \<and>
   ((load w = Inr (PDict fmempty)) =
      (disk w = None \<or> disk w = Some (Document (PDict fmempty))))"
  by (auto simp: load_def main_def split: option.splits storage_file.splits)

section \<open>Persistence\<close>

lemma loop_disk:
  assumes "loop brain w = (oc, b', w')"
  shows "disk w' = disk w"
proof -
  let ?P = "\<lambda>(b::pyval) w1. disk w1 = disk w"
  have step: "?P b1 w1" if "?P b w0" and "body b w0 = (c, b1, w1)" for b w0 c b1 w1
    using that body_disk [of b w0 c b1 w1] by simp
  from assms obtain b0 w0 where p: "?P b0 w0"
    and last: "(oc = Finished \<and> body b0 w0 = (Break, b', w')) \<or>
     (\<exists>e. oc = Raised e \<and> body b0 w0 = (Raise e, b', w'))"
    using loop_last_pass [of brain w oc b' w' ?P] step by blast
  from last obtain c where "body b0 w0 = (c, b', w')" by blast
  with p show ?thesis by (rule step)
qed

lemma main_disk: "disk (snd (snd (main w))) = disk w"
proof (cases "load w")
  case (Inl e)
  then show ?thesis by (simp add: main_def)
next
  case (Inr brain)
  show ?thesis
  proof (cases "py_len brain")
    case (Inl e)
    with Inr show ?thesis by (simp add: main_def)
  next
    case r: (Inr n)
    let ?w2 = "print [PStr ''hey, teach me how to talk.  type quit to exit'']
                 (print [PStr ''Memories Loaded'', PInt n] w)"
    obtain oc b' w' where l: "loop brain ?w2 = (oc, b', w')"
      by (cases "loop brain ?w2")
    then have "disk w' = disk ?w2" by (rule loop_disk)
    then have "disk w' = disk w" by (simp add: print_def)
    with Inr r l show ?thesis by (simp add: main_def Let_def)
  qed
qed

text \<open>
  C1, amended. The script never writes the storage file: when the process ends, by
  \<open>quit\<close> or by an exception, the file is exactly what it was at startup, and loading it
  again returns what was loaded at startup, without the pairs taught during the session.
\<close>

theorem storage_never_written:
  "disk (snd (snd (main w))) = disk w \<and> load (snd (snd (main w))) = load w"
  by (simp add: main_disk load_def)

text \<open>
  A session that starts without a storage file, teaches one pair and quits: the table in
  memory holds the pair, and a load after the exit returns the empty table.
\<close>

theorem persistence_counterexample:
  "main \<lparr>disk = None, stdin = [''hello'', ''hi there'', ''quit''], stdout = []\<rparr> =
     (Finished, Some (PDict (fmupd ''hello'' (PStr ''hi there'') fmempty)),
      \<lparr>disk = None, stdin = [],
       stdout = [Print [PStr ''Memories Loaded'', PInt 0],
         Print [PStr ''hey, teach me how to talk.  type quit to exit''],
         Prompt ''You:'', Print [PStr ''Bot: I don't know what to say''],
         Prompt ''Can you teach me?'', Print [PStr ''Bot: Got it! I'll remember that''],
         Prompt ''You:'']\<rparr>) \<and>
   load \<lparr>disk = None, stdin = [],
       stdout = [Print [PStr ''Memories Loaded'', PInt 0],
         Print [PStr ''hey, teach me how to talk.  type quit to exit''],
         Prompt ''You:'', Print [PStr ''Bot: I don't know what to say''],
         Prompt ''Can you teach me?'', Print [PStr ''Bot: Got it! I'll remember that''],
         Prompt ''You:'']\<rparr> = Inr (PDict fmempty) \<and>
   PDict fmempty \<noteq> PDict (fmupd ''hello'' (PStr ''hi there'') fmempty)"
proof -
  have "fmlookup fmempty ''hello'' \<noteq> fmlookup (fmupd ''hello'' (PStr ''hi there'') fmempty) ''hello''"
    by simp
  then have "fmempty \<noteq> fmupd ''hello'' (PStr ''hi there'') fmempty"
    by metis
  then show ?thesis
    by (simp add: main_def load_def run_simps)
qed


section \<open>End of input\<close>

lemma loop_no_quit:
  assumes "\<forall>l\<in>set (stdin w). normalize_str l \<noteq> ''quit''"
    and "loop brain w = (oc, b', w')"
  shows "oc \<noteq> Finished"
proof
  assume fin: "oc = Finished"
  let ?P = "\<lambda>(b::pyval) w1. \<forall>l\<in>set (stdin w1). normalize_str l \<noteq> ''quit''"
  have step: "?P b1 w1" if "?P b w0" and "body b w0 = (Continue, b1, w1)" for b w0 b1 w1
    using that body_stdin_suffix [of b w0 Continue b1 w1] by blast
  from assms obtain b0 w0 where p: "?P b0 w0"
    and last: "(oc = Finished \<and> body b0 w0 = (Break, b', w')) \<or>
     (\<exists>e. oc = Raised e \<and> body b0 w0 = (Raise e, b', w'))"
    using loop_last_pass [of brain w oc b' w' ?P] step by blast
  from last fin have "body b0 w0 = (Break, b', w')" by simp
  then obtain l rest where "stdin w0 = l # rest" and "normalize_str l = ''quit''"
    using body_Break by blast
  with p show False by simp
qed

lemma loop_dict_Raised:
  assumes "loop (PDict m) w = (Raised e, b', w')"
  shows "e = EOFError"
proof -
  let ?P = "\<lambda>b (w1::world). \<exists>m'. b = PDict m'"
  have step: "?P b1 w1" if "?P b w0" and "body b w0 = (Continue, b1, w1)" for b w0 b1 w1
    using that body_dict_step [of _ w0 Continue b1 w1] by blast
  have "?P (PDict m) w" by blast
  with assms obtain b0 w0 where p: "?P b0 w0"
    and last: "(Raised e = Finished \<and> body b0 w0 = (Break, b', w')) \<or>
     (\<exists>e'. Raised e = Raised e' \<and> body b0 w0 = (Raise e', b', w'))"
    using loop_last_pass [of "PDict m" w "Raised e" b' w' ?P] step by blast
  from last have "body b0 w0 = (Raise e, b', w')" by simp
  with p show ?thesis using body_dict_Raise by blast
qed

text \<open>
  C2, amended. End of input is not a clean exit. When no line of the input normalizes to
  \<open>quit\<close>, the process ends with exit code 1; when moreover the table loaded is a
  dictionary (in particular when no storage file exists), it ends on the uncaught
  \<open>EOFError\<close> that \<open>input\<close> raises at the end of the stream. Exit code 0 needs a
  line that normalizes to \<open>quit\<close>.
\<close>

theorem end_of_input_raises:
  assumes "\<forall>l\<in>set (stdin w). normalize_str l \<noteq> ''quit''"
  shows "exit_code (fst (main w)) = 1 \<and>
         (\<forall>m. load w = Inr (PDict m) \<longrightarrow> fst (main w) = Raised EOFError)"
proof (cases "load w")
  case (Inl e)
  then show ?thesis by (simp add: main_def)
next
  case (Inr brain)
  show ?thesis
  proof (cases "py_len brain")
    case (Inl e)
    with Inr show ?thesis by (auto simp: main_def)
  next
    case r: (Inr n)
    let ?w2 = "print [PStr ''hey, teach me how to talk.  type quit to exit'']
                 (print [PStr ''Memories Loaded'', PInt n] w)"
    obtain oc b' w' where l: "loop brain ?w2 = (oc, b', w')"
      by (cases "loop brain ?w2")
    from Inr r l have m: "fst (main w) = oc"
      by (simp add: main_def Let_def)
    from assms have nq: "\<forall>l\<in>set (stdin ?w2). normalize_str l \<noteq> ''quit''"
      by simp
    from nq l have nf: "oc \<noteq> Finished" by (rule loop_no_quit)
    then obtain e where e: "oc = Raised e" by (cases oc) auto
    have "e = EOFError" if "brain = PDict m" for m
      using l e that loop_dict_Raised by blast
    with m e Inr show ?thesis by simp
  qed
qed

theorem end_of_input_raises_witness:
  "normalize_str ''Hello'' \<noteq> ''quit'' \<and>
   load \<lparr>disk = None, stdin = [''Hello''], stdout = []\<rparr> = Inr (PDict fmempty) \<and>
   fst (main \<lparr>disk = None, stdin = [''Hello''], stdout = []\<rparr>) = Raised EOFError \<and>
   exit_code (fst (main \<lparr>disk = None, stdin = [''Hello''], stdout = []\<rparr>)) = 1"
proof -
  let ?w = "\<lparr>disk = None, stdin = [''Hello''], stdout = []\<rparr>"
  have h: "\<forall>l\<in>set (stdin ?w). normalize_str l \<noteq> ''quit''"
    by (simp add: run_simps)
  have ld: "load ?w = Inr (PDict fmempty)"
    by (simp add: load_def)
  have n: "normalize_str ''Hello'' \<noteq> ''quit''"
    by (simp add: run_simps)
  from end_of_input_raises [OF h] ld n show ?thesis
    by simp
qed

text \<open>
  With no storage file and an input stream that is closed from the start, the process
  ends on \<open>EOFError\<close> with exit code 1, where typing \<open>quit\<close> gives exit code 0.
\<close>

theorem end_of_input_counterexample:
  "main \<lparr>disk = None, stdin = [], stdout = []\<rparr> =
     (Raised EOFError, Some (PDict fmempty),
      \<lparr>disk = None, stdin = [],
       stdout = [Print [PStr ''Memories Loaded'', PInt 0],
         Print [PStr ''hey, teach me how to talk.  type quit to exit''],
         Prompt ''You:'']\<rparr>) \<and>
   exit_code (fst (main \<lparr>disk = None, stdin = [], stdout = []\<rparr>)) = 1 \<and>
   fst (main \<lparr>disk = None, stdin = [''quit''], stdout = []\<rparr>) = Finished \<and>
   exit_code (fst (main \<lparr>disk = None, stdin = [''quit''], stdout = []\<rparr>)) = 0"
  by (simp add: main_def load_def run_simps)

end
